theory Spec2Isabelle
  imports Complex_Main "HOL-Library.Word" "HOL-Library.Sublist"
begin

section \<open>Arbitrary-precision numbers of math/big, as main.go uses them\<close>

text \<open>
  main.go keeps a balance in a \<^verbatim>\<open>*big.Int\<close> (modelled as \<open>int\<close>) and converts it
  to a \<^verbatim>\<open>*big.Float\<close>. A big.Float is a binary floating-point number: a precision
  (the number of mantissa bits), a mantissa and a binary exponent. The model keeps the
  three as a record; the number it denotes is \<open>fmant * 2 ^ fexp\<close>. Only finite values
  are modelled: main.go divides by \<open>10 ^ decimals\<close>, which is never zero. The library
  keeps the exponent in 32 bits, so an integer of \<open>2 ^ 31\<close> bits or more would become an
  infinity: the theorems on \<open>toDecimalUnit\<close> assume a balance shorter than that.
\<close>

record Float =
  fprec :: nat
  fmant :: int
  fexp :: int

definition valueF :: "Float \<Rightarrow> rat" where
  "valueF f = of_int (fmant f) * 2 powi (fexp f)"

text \<open>
  \<^verbatim>\<open>(*big.Int).BitLen\<close>: the length of the absolute value in bits, 0 for 0.
\<close>

fun bit_len :: "nat \<Rightarrow> nat" where
  "bit_len n = (if n = 0 then 0 else bit_len (n div 2) + 1)"

declare bit_len.simps [simp del]

definition BitLen :: "int \<Rightarrow> int" where
  "BitLen x = int (bit_len (nat \<bar>x\<bar>))"

text \<open>
  Rounding of a positive quotient \<open>a / b\<close> to \<open>p\<close> mantissa bits, to the nearest
  representable value, ties to the even mantissa (\<^verbatim>\<open>ToNearestEven\<close>, the rounding mode
  of a fresh big.Float). The result is the mantissa and the exponent. The exponent is
  the one for which the truncated mantissa \<open>q\<close> has exactly \<open>p\<close> bits; \<open>r\<close> is what
  the truncation leaves.
\<close>

definition scaled_num :: "int \<Rightarrow> int \<Rightarrow> int" where
  "scaled_num a e = a * 2 ^ nat (- e)"

definition scaled_den :: "int \<Rightarrow> int \<Rightarrow> int" where
  "scaled_den b e = b * 2 ^ nat e"

definition quo_exp :: "nat \<Rightarrow> int \<Rightarrow> int \<Rightarrow> int" where
  "quo_exp p a b =
     (let e0 = BitLen a - BitLen b - int p
      in if scaled_den b e0 * 2 ^ p \<le> scaled_num a e0 then e0 + 1 else e0)"

definition round_even :: "int \<Rightarrow> int \<Rightarrow> int" where
  "round_even n d =
     (let q = n div d; r = n mod d
      in if 2 * r < d then q
         else if d < 2 * r then q + 1
         else if even q then q else q + 1)"

definition round_quo :: "nat \<Rightarrow> int \<Rightarrow> int \<Rightarrow> int \<times> int" where
  "round_quo p a b =
     (let e = quo_exp p a b
      in (round_even (scaled_num a e) (scaled_den b e), e))"

text \<open>The number that a mantissa and an exponent denote.\<close>

definition quo_value :: "int \<times> int \<Rightarrow> rat" where
  "quo_value me = of_int (fst me) * 2 powi (snd me)"

text \<open>
  \<^verbatim>\<open>new(big.Float).SetInt(x)\<close>: the receiver's precision is 0, so it becomes the larger
  of \<open>x.BitLen()\<close> and 64, and the conversion is exact.
\<close>

definition Float_SetInt :: "int \<Rightarrow> Float" where
  "Float_SetInt x = \<lparr>fprec = nat (max (BitLen x) 64), fmant = x, fexp = 0\<rparr>"

text \<open>
  \<^verbatim>\<open>new(big.Float).Quo(x, y)\<close>: the receiver's precision is 0, so it becomes the larger
  of the operands' precisions; the result is the quotient rounded to that precision.
  The sign is the product of the signs and the magnitude is rounded (sign-magnitude
  representation). \<open>y\<close> is not zero where main.go calls it.
\<close>

definition Float_Quo :: "Float \<Rightarrow> Float \<Rightarrow> Float" where
  "Float_Quo x y =
     (let p = max (fprec x) (fprec y)
      in if fmant x = 0 then \<lparr>fprec = p, fmant = 0, fexp = 0\<rparr>
         else
           let a = \<bar>fmant x\<bar> * 2 ^ nat (fexp x - fexp y);
               b = \<bar>fmant y\<bar> * 2 ^ nat (fexp y - fexp x);
               (m, e) = round_quo p a b
           in \<lparr>fprec = p, fmant = sgn (fmant x) * sgn (fmant y) * m, fexp = e\<rparr>)"

text \<open>
  \<^verbatim>\<open>x.Cmp(y)\<close>: -1, 0 or +1 as \<open>x\<close> is less than, equal to or greater than \<open>y\<close>.
  The two mantissas are brought to the smaller exponent and compared as integers.
\<close>

definition Float_Cmp :: "Float \<Rightarrow> Float \<Rightarrow> int" where
  "Float_Cmp x y =
     (let e = min (fexp x) (fexp y);
          a = fmant x * 2 ^ nat (fexp x - e);
          b = fmant y * 2 ^ nat (fexp y - e)
      in if a < b then - 1 else if b < a then 1 else 0)"

subsection \<open>toDecimalUnit and exceedsBalanceThreshold (main.go, lines 227-237)\<close>

text \<open>
  \<^verbatim>\<open>decimals\<close> is a \<^verbatim>\<open>uint8\<close>. \<^verbatim>\<open>Exp(10, decimals, nil)\<close> is the plain power.
\<close>

definition toDecimalUnit :: "int \<Rightarrow> 8 word \<Rightarrow> Float" where
  "toDecimalUnit wei decimals =
     (let decimalFactor = (10::int) ^ unat decimals;
          ether = Float_Quo (Float_SetInt wei) (Float_SetInt decimalFactor)
      in ether)"

definition exceedsBalanceThreshold :: "Float \<Rightarrow> Float \<Rightarrow> bool" where
  "exceedsBalanceThreshold balance threshold \<longleftrightarrow> Float_Cmp balance threshold = - 1"


section \<open>Parsing\<close>

subsection \<open>\<^verbatim>\<open>(*big.Int).SetString(s, base)\<close> for a base from 2 to 36\<close>

text \<open>
  The value of a digit: \<open>0-9\<close>, then \<open>a-z\<close> and \<open>A-Z\<close> for 10 to 35; any other
  character gets a value no base accepts.
\<close>

definition digit_val :: "char \<Rightarrow> nat" where
  "digit_val c =
     (let n = of_char c :: nat
      in if 48 \<le> n \<and> n \<le> 57 then n - 48
         else if 97 \<le> n \<and> n \<le> 122 then n - 97 + 10
         else if 65 \<le> n \<and> n \<le> 90 then n - 65 + 10
         else 63)"

text \<open>An optional sign; reading from an empty string is an error.\<close>

fun scanSign :: "string \<Rightarrow> (bool \<times> string) option" where
  "scanSign [] = None"
| "scanSign (c # cs) =
     (if c = CHR ''+'' then Some (False, cs)
      else if c = CHR ''-'' then Some (True, cs)
      else Some (False, c # cs))"

text \<open>
  The digits of the number: the scan stops at the first character that is not a digit
  of the base and leaves it unread. The result is the value read, the number of digits
  and the rest of the input.
\<close>

fun scan_digits :: "nat \<Rightarrow> string \<Rightarrow> int \<Rightarrow> nat \<Rightarrow> int \<times> nat \<times> string" where
  "scan_digits b [] acc n = (acc, n, [])"
| "scan_digits b (c # cs) acc n =
     (if digit_val c < b then scan_digits b cs (acc * int b + int (digit_val c)) (n + 1)
      else (acc, n, c # cs))"

text \<open>
  \<open>Int_SetString s base\<close> is the success flag together with the value that the call
  leaves in its receiver, a fresh (zero) big.Int at both call sites of main.go. The
  library stores the digits it has read before it checks that the whole string was
  consumed: after a failure the receiver holds the signed value of the digits read so
  far (0 when there was none). The library's documentation calls that value undefined.
\<close>

definition Int_SetString :: "string \<Rightarrow> nat \<Rightarrow> bool \<times> int" where
  "Int_SetString s base =
     (case scanSign s of
        None \<Rightarrow> (False, 0)
      | Some (neg, rest) \<Rightarrow>
          (case scan_digits base rest 0 0 of
             (v, n, rest') \<Rightarrow>
               if n = 0 then (False, 0)
               else (rest' = [], if neg then - v else v)))"

subsection \<open>\<^verbatim>\<open>new(big.Float).SetString(s)\<close>, decimal literals\<close>

text \<open>
  The mantissa of a decimal literal: digits with at most one radix point. The result is
  the digits read as one integer, their number, the number of digits behind the point
  and the rest of the input.
\<close>

fun scan_mantissa :: "string \<Rightarrow> int \<Rightarrow> nat \<Rightarrow> bool \<Rightarrow> nat \<Rightarrow> int \<times> nat \<times> nat \<times> string" where
  "scan_mantissa [] acc n dp fr = (acc, n, fr, [])"
| "scan_mantissa (c # cs) acc n dp fr =
     (if c = CHR ''.'' \<and> \<not> dp then scan_mantissa cs acc n True fr
      else if digit_val c < 10
        then scan_mantissa cs (acc * 10 + int (digit_val c)) (n + 1) dp (if dp then fr + 1 else fr)
      else (acc, n, fr, c # cs))"

text \<open>
  The literal as the library reads it before it rounds: sign, mantissa digits and the
  number of fraction digits. This model covers the literals made of an optional sign,
  decimal digits and an optional radix point. The library also accepts exponents, base
  prefixes, digit separators and infinities; for those, and for the strings the library
  rejects, the model has no value.
\<close>

definition scan_decimal :: "string \<Rightarrow> (bool \<times> int \<times> nat) option" where
  "scan_decimal s =
     (case scanSign s of
        None \<Rightarrow> None
      | Some (neg, rest) \<Rightarrow>
          (case scan_mantissa rest 0 0 False 0 of
             (m, n, fr, rest') \<Rightarrow>
               if n = 0 \<or> rest' \<noteq> [] then None else Some (neg, m, fr)))"

text \<open>
  The receiver's precision is 0, so it becomes 64, and the value of the literal is
  rounded to 64 mantissa bits. (The library divides the mantissa by a power of 5 that it
  holds in 128 bits, exact up to 55 fraction digits.)
\<close>

definition Float_SetString :: "string \<Rightarrow> Float option" where
  "Float_SetString s =
     (case scan_decimal s of
        None \<Rightarrow> None
      | Some (neg, m, fr) \<Rightarrow>
          if m = 0 then Some \<lparr>fprec = 64, fmant = 0, fexp = 0\<rparr>
          else
            (case round_quo 64 m (10 ^ fr) of
               (q, e) \<Rightarrow> Some \<lparr>fprec = 64, fmant = (if neg then - q else q), fexp = e\<rparr>))"

text \<open>The exact value of the literal, for comparison with what the program computes.\<close>

definition decimal_value :: "string \<Rightarrow> rat option" where
  "decimal_value s =
     (case scan_decimal s of
        None \<Rightarrow> None
      | Some (neg, m, fr) \<Rightarrow> Some ((if neg then - 1 else 1) * of_int m / 10 ^ fr))"

subsection \<open>Strings\<close>

text \<open>
  \<^verbatim>\<open>strings.TrimPrefix\<close>, \<^verbatim>\<open>strings.ToUpper\<close> and \<^verbatim>\<open>strings.EqualFold\<close>. The two
  case functions are modelled on ASCII, the alphabet of a denom: a byte outside
  \<open>a-z\<close> is left as it is, and two bytes fold together when they are equal or are the
  two cases of one letter.
\<close>

definition TrimPrefix :: "string \<Rightarrow> string \<Rightarrow> string" where
  "TrimPrefix s pre = (if take (length pre) s = pre then drop (length pre) s else s)"

definition upper_char :: "char \<Rightarrow> char" where
  "upper_char c =
     (let n = of_char c :: nat in if 97 \<le> n \<and> n \<le> 122 then char_of (n - 32) else c)"

definition ToUpper :: "string \<Rightarrow> string" where
  "ToUpper s = map upper_char s"

definition fold_pair :: "char \<Rightarrow> char \<Rightarrow> bool" where
  "fold_pair sr tr =
     (let a = min (of_char sr) (of_char tr) :: nat; b = max (of_char sr) (of_char tr)
      in sr = tr \<or> (65 \<le> a \<and> a \<le> 90 \<and> b = a + 32))"

fun EqualFold :: "string \<Rightarrow> string \<Rightarrow> bool" where
  "EqualFold [] [] = True"
| "EqualFold (sr # s) (tr # t) = (fold_pair sr tr \<and> EqualFold s t)"
| "EqualFold _ _ = False"

section \<open>The data model of main.go (lines 32-69)\<close>

record Wallet =
  Address :: string
  Wallet_Name :: string
  Alert :: bool

record NetworkConfig =
  Type :: string
  RPC :: string
  Explorer :: string
  Coin :: string
  Name :: string
  Decimals :: "8 word"
  Threshold :: string
  Wallets :: "Wallet list"

record ChainConfig =
  Chains :: "NetworkConfig list"

record Balances =
  Denom :: string
  Amount :: string

record CosmosBalance =
  Balances :: "Balances list"

text \<open>
  Errors. \<open>External\<close> is an error of a library or of the network, opaque to main.go;
  the other three are the errors main.go makes itself with \<^verbatim>\<open>fmt.Errorf\<close>.
\<close>

datatype error =
    External string
  | NoBalanceFound string
  | ConvertFailed
  | UnexpectedStatus int

text \<open>
  \<^verbatim>\<open>http.Get\<close> followed by \<^verbatim>\<open>io.ReadAll\<close>: the request fails, or there is a response
  whose body is read or fails to be read.
\<close>

datatype http_get = GetError error | GetBody "error + string"

text \<open>
  \<^verbatim>\<open>http.Post\<close> returns a response and an error. With a nil error there is a response
  (its status code); with an error the response is nil, except that the client may hand
  back the last response when a redirect fails.
\<close>

datatype http_post = PostError error "int option" | PostResponse int

text \<open>A Go call either returns or panics.\<close>

datatype 'a outcome = Returns 'a | Panics

text \<open>
  What the program writes to standard output, one constructor for each print
  statement, and what it does: a line printed, a balance fetched for a wallet, a
  threshold comparison with its answer, a dial and a POST to a webhook.
\<close>

datatype line =
    NetworkLine string
  | TableHeader string
  | Rule
  | ThresholdError
  | ErrorLine error
  | Row string string string string
  | RequestError error
  | ReadError error
  | UnmarshalError error
  | BodyLine string
  | BlankLines

datatype event =
    Print line
  | Fetch Wallet
  | Compare Wallet bool
  | Dial string
  | Post string string

text \<open>
  Everything main.go gets from outside: the file system, the environment, the
  libraries it does not own and the network. A network call takes, besides its
  arguments, the number of network calls made before it, so that two calls with the
  same arguments may be answered differently.
\<close>

record World =
  os_ReadFile :: "string \<Rightarrow> error + string"
  Unmarshal_ChainConfig :: "string \<Rightarrow> error + ChainConfig"
  Unmarshal_CosmosBalance :: "string \<Rightarrow> error + CosmosBalance"
  json_Marshal :: "(string \<times> string) list \<Rightarrow> error + string"
  big_Float_SetString :: "string \<Rightarrow> Float option"
  Float_String :: "Float \<Rightarrow> string"
  Int_String :: "int \<Rightarrow> string"
  HexInt_BigInt :: "string \<Rightarrow> error + int"
  telegramBotToken :: string
  discordWebhookURL :: string
  rpc_DialContext :: "nat \<Rightarrow> string \<Rightarrow> error option"
  eth_getBalance :: "nat \<Rightarrow> string \<Rightarrow> string \<Rightarrow> error + string"
  icon_GetBalance :: "nat \<Rightarrow> string \<Rightarrow> string \<Rightarrow> error + string"
  http_Get :: "nat \<Rightarrow> string \<Rightarrow> http_get"
  http_Post :: "nat \<Rightarrow> string \<Rightarrow> string \<Rightarrow> http_post"

definition filePath :: string where
  "filePath = ''./wallets.json''"

section \<open>The balance fetchers\<close>

subsection \<open>getCosmosBalance (main.go, lines 166-196)\<close>

text \<open>The loop over the balances of the response, lines 188-195.\<close>

fun find_balance :: "Balances list \<Rightarrow> string \<Rightarrow> error + int" where
  "find_balance [] denom = Inl (NoBalanceFound denom)"
| "find_balance (c # cs) denom =
     (if EqualFold (ToUpper (Denom c)) (ToUpper denom)
      then Inr (snd (Int_SetString (Amount c) 10))
      else find_balance cs denom)"

definition getCosmosBalance ::
  "World \<Rightarrow> nat \<Rightarrow> string \<Rightarrow> string \<Rightarrow> string \<Rightarrow> line list \<times> (error + int)" where
  "getCosmosBalance W t rpc address denom =
     (let apiURL = rpc @ ''/cosmos/bank/v1beta1/balances/'' @ address
      in case http_Get W t apiURL of
           GetError err \<Rightarrow> ([RequestError err], Inl err)
         | GetBody (Inl err) \<Rightarrow> ([ReadError err], Inl err)
         | GetBody (Inr body) \<Rightarrow>
             (case Unmarshal_CosmosBalance W body of
                Inl err \<Rightarrow> ([UnmarshalError err, BodyLine body], Inl err)
              | Inr cb \<Rightarrow> ([], find_balance (Balances cb) denom)))"

subsection \<open>getICXBalance (main.go, lines 198-206)\<close>

definition getICXBalance :: "World \<Rightarrow> nat \<Rightarrow> string \<Rightarrow> string \<Rightarrow> error + int" where
  "getICXBalance W t client address =
     (case icon_GetBalance W t client address of
        Inl err \<Rightarrow> Inl err
      | Inr bal \<Rightarrow> HexInt_BigInt W bal)"

subsection \<open>getETHBalance (main.go, lines 208-225)\<close>

definition getETHBalance :: "World \<Rightarrow> nat \<Rightarrow> string \<Rightarrow> string \<Rightarrow> error + int" where
  "getETHBalance W t client address =
     (case eth_getBalance W t client address of
        Inl err \<Rightarrow> Inl err
      | Inr balanceHex \<Rightarrow>
          (case Int_SetString (TrimPrefix balanceHex ''0x'') 16 of
             (success, balance) \<Rightarrow>
               if \<not> success then Inl ConvertFailed else Inr balance))"

section \<open>Alerts (main.go, lines 239-279)\<close>

text \<open>The marker of the alert message, the eight bytes that stand in main.go.\<close>

definition siren :: string where
  "siren = map char_of [195, 176, 197, 184, 197, 161, 194, 168 :: nat]"

definition alert_message ::
  "string \<Rightarrow> string \<Rightarrow> string \<Rightarrow> string \<Rightarrow> string \<Rightarrow> string \<Rightarrow> string" where
  "alert_message network address balance threshold coin explorer =
     siren @ '' **'' @ network @ ''** Alert '' @ siren @ [CHR 0x0A, CHR 0x0A]
     @ ''Address: ['' @ address @ '']('' @ explorer @ ''/'' @ address @ '')'' @ [CHR 0x0A]
     @ ''Balance: '' @ balance @ '' '' @ coin @ [CHR 0x0A]
     @ ''Threshold: '' @ threshold @ '' '' @ coin @ [CHR 0x0A, CHR 0x0A]"

text \<open>
  \<open>sendTelegramAlert\<close> reads the status code of the response before it looks at the
  error. Its result is what it returns, unless it panics.
\<close>

definition sendTelegramAlert :: "World \<Rightarrow> nat \<Rightarrow> string \<Rightarrow> error option outcome" where
  "sendTelegramAlert W t message =
     (case json_Marshal W [(''chat_id'', []), (''text'', message)] of
        Inl err \<Rightarrow> Returns (Some err)
      | Inr jsonMsg \<Rightarrow>
          (case http_Post W t
                  (''https://api.telegram.org/bot'' @ telegramBotToken W @ ''/sendMessage'')
                  jsonMsg of
             PostError err None \<Rightarrow> Panics
           | PostError err (Some code) \<Rightarrow>
               if code \<noteq> 200 then Returns (Some (UnexpectedStatus code))
               else Returns (Some err)
           | PostResponse code \<Rightarrow>
               if code \<noteq> 200 then Returns (Some (UnexpectedStatus code))
               else Returns None))"

text \<open>
  \<open>sendDiscordAlert\<close>: what it returns, the events it causes and the number of network
  calls after it.
\<close>

definition sendDiscordAlert :: "World \<Rightarrow> nat \<Rightarrow> string \<Rightarrow> error option \<times> event list \<times> nat" where
  "sendDiscordAlert W t message =
     (case json_Marshal W [(''content'', message)] of
        Inl err \<Rightarrow> (Some err, [], t)
      | Inr jsonMsg \<Rightarrow>
          (case http_Post W t (discordWebhookURL W) jsonMsg of
             PostError err resp \<Rightarrow> (Some err, [Post (discordWebhookURL W) jsonMsg], t + 1)
           | PostResponse code \<Rightarrow>
               if code \<noteq> 200
               then (Some (UnexpectedStatus code), [Post (discordWebhookURL W) jsonMsg], t + 1)
               else (None, [Post (discordWebhookURL W) jsonMsg], t + 1)))"

text \<open>\<open>sendAlert\<close> calls \<open>sendDiscordAlert\<close> and drops what it returns.\<close>

definition sendAlert ::
  "World \<Rightarrow> nat \<Rightarrow> string \<Rightarrow> string \<Rightarrow> string \<Rightarrow> string \<Rightarrow> string \<Rightarrow> string \<Rightarrow> event list \<times> nat" where
  "sendAlert W t network address balance threshold coin explorer =
     (let message = alert_message network address balance threshold coin explorer
      in snd (sendDiscordAlert W t message))"

section \<open>The orchestrator (main.go, lines 71-164)\<close>

text \<open>
  The three wallet loops of \<open>main\<close> (lines 106-121, 127-142 and 145-160) are the same
  text but for the call that fetches the balance; the model has one loop and takes
  that call as \<open>fetch\<close>. The loop returns the events it causes and the number of
  network calls after it.
\<close>

type_synonym fetcher = "World \<Rightarrow> nat \<Rightarrow> NetworkConfig \<Rightarrow> Wallet \<Rightarrow> line list \<times> (error + int)"

definition fetch_evm :: fetcher where
  "fetch_evm W t networkConfig wallet = ([], getETHBalance W t (RPC networkConfig) (Address wallet))"

definition fetch_icon :: fetcher where
  "fetch_icon W t networkConfig wallet = ([], getICXBalance W t (RPC networkConfig) (Address wallet))"

definition fetch_cosmos :: fetcher where
  "fetch_cosmos W t networkConfig wallet =
     getCosmosBalance W t (RPC networkConfig) (Address wallet) (Coin networkConfig)"

fun wallets_loop ::
  "World \<Rightarrow> fetcher \<Rightarrow> NetworkConfig \<Rightarrow> Float \<Rightarrow> nat \<Rightarrow> Wallet list \<Rightarrow> event list \<times> nat" where
  "wallets_loop W fetch networkConfig threshold t [] = ([], t)"
| "wallets_loop W fetch networkConfig threshold t (wallet # ws) =
     (if \<not> Alert wallet then wallets_loop W fetch networkConfig threshold t ws
      else
        case fetch W t networkConfig wallet of
          (printed, Inl err) \<Rightarrow>
            (case wallets_loop W fetch networkConfig threshold (t + 1) ws of
               (evs, t') \<Rightarrow>
                 (Fetch wallet # map Print printed @ Print (ErrorLine err) # evs, t'))
        | (printed, Inr balance) \<Rightarrow>
            (let etherBalance = toDecimalUnit balance (Decimals networkConfig);
                 row = Row (Address wallet) (Float_String W etherBalance)
                         (Int_String W balance) (Float_String W threshold);
                 below = exceedsBalanceThreshold etherBalance threshold
             in case (if below
                      then sendAlert W (t + 1) (Name networkConfig) (Address wallet)
                             (Float_String W etherBalance) (Float_String W threshold)
                             (Coin networkConfig) (Explorer networkConfig)
                      else ([], t + 1)) of
                  (alerts, t1) \<Rightarrow>
                    (case wallets_loop W fetch networkConfig threshold t1 ws of
                       (evs, t') \<Rightarrow>
                         (Fetch wallet # map Print printed
                            @ Print row # Compare wallet below # alerts @ evs, t'))))"

text \<open>
  The body of the loop over the networks. An unparsable threshold and a failed dial
  leave the body with \<^verbatim>\<open>continue\<close>, before the blank lines that end a network's
  table; a type other than the three known ones runs no loop.
\<close>

definition network_body :: "World \<Rightarrow> nat \<Rightarrow> NetworkConfig \<Rightarrow> event list \<times> nat" where
  "network_body W t networkConfig =
     (let coinName = Coin networkConfig;
          header = [Print (NetworkLine (Name networkConfig)), Print (TableHeader coinName),
                    Print Rule]
      in case big_Float_SetString W (Threshold networkConfig) of
           None \<Rightarrow> (header @ [Print ThresholdError], t)
         | Some threshold \<Rightarrow>
             if Type networkConfig = ''evm'' then
               (case rpc_DialContext W t (RPC networkConfig) of
                  Some err \<Rightarrow> (header @ [Dial (RPC networkConfig)], t + 1)
                | None \<Rightarrow>
                    (case wallets_loop W fetch_evm networkConfig threshold (t + 1)
                            (Wallets networkConfig) of
                       (evs, t') \<Rightarrow>
                         (header @ Dial (RPC networkConfig) # evs @ [Print BlankLines], t')))
             else if Type networkConfig = ''icon'' then
               (case wallets_loop W fetch_icon networkConfig threshold t
                       (Wallets networkConfig) of
                  (evs, t') \<Rightarrow> (header @ evs @ [Print BlankLines], t'))
             else if Type networkConfig = ''cosmos'' then
               (case wallets_loop W fetch_cosmos networkConfig threshold t
                       (Wallets networkConfig) of
                  (evs, t') \<Rightarrow> (header @ evs @ [Print BlankLines], t'))
             else (header @ [Print BlankLines], t))"

fun networks_loop :: "World \<Rightarrow> nat \<Rightarrow> NetworkConfig list \<Rightarrow> event list \<times> nat" where
  "networks_loop W t [] = ([], t)"
| "networks_loop W t (networkConfig # ncs) =
     (case network_body W t networkConfig of
        (evs, t1) \<Rightarrow>
          (case networks_loop W t1 ncs of
             (evs', t2) \<Rightarrow> (evs @ evs', t2)))"

text \<open>
  \<open>main\<close> ends in \<^verbatim>\<open>log.Fatal\<close> when the configuration cannot be read or decoded;
  otherwise it runs to its end, and the result is the trace of the run.
\<close>

datatype result = Fatal error | Completed "event list"

definition main :: "World \<Rightarrow> result" where
  "main W =
     (case os_ReadFile W filePath of
        Inl err \<Rightarrow> Fatal err
      | Inr content \<Rightarrow>
          (case Unmarshal_ChainConfig W content of
             Inl err \<Rightarrow> Fatal err
           | Inr chainCfg \<Rightarrow> Completed (fst (networks_loop W 0 (Chains chainCfg)))))"

section \<open>Notions used to state the properties\<close>

text \<open>
  A digit string of a base and the number it denotes; a digit string with an optional
  sign in front; and the signed number denoted by the digits that a string starts with.
\<close>

definition is_digits :: "nat \<Rightarrow> string \<Rightarrow> bool" where
  "is_digits b ds \<longleftrightarrow> ds \<noteq> [] \<and> (\<forall>c \<in> set ds. digit_val c < b)"

definition digits_value :: "nat \<Rightarrow> string \<Rightarrow> int" where
  "digits_value b ds = foldl (\<lambda>a c. a * int b + int (digit_val c)) 0 ds"

fun strip_sign :: "string \<Rightarrow> bool \<times> string" where
  "strip_sign [] = (False, [])"
| "strip_sign (c # cs) =
     (if c = CHR ''+'' then (False, cs) else if c = CHR ''-'' then (True, cs) else (False, c # cs))"

definition signed_digits :: "nat \<Rightarrow> string \<Rightarrow> bool" where
  "signed_digits b s \<longleftrightarrow> is_digits b (snd (strip_sign s))"

definition prefix_value :: "nat \<Rightarrow> string \<Rightarrow> int" where
  "prefix_value b s =
     (let v = digits_value b (takeWhile (\<lambda>c. digit_val c < b) (snd (strip_sign s)))
      in if fst (strip_sign s) then - v else v)"


text \<open>ASCII strings, and equality of two strings up to the case of their letters.\<close>

definition ascii :: "string \<Rightarrow> bool" where
  "ascii s \<longleftrightarrow> (\<forall>c \<in> set s. (of_char c :: nat) < 128)"

definition same_ignoring_case :: "string \<Rightarrow> string \<Rightarrow> bool" where
  "same_ignoring_case s t \<longleftrightarrow> map upper_char s = map upper_char t"

text \<open>
  A number that a binary mantissa of \<open>p\<close> bits holds without rounding.
\<close>

definition representable :: "nat \<Rightarrow> rat \<Rightarrow> bool" where
  "representable p x \<longleftrightarrow> (\<exists>M E. \<bar>x\<bar> = of_int M * 2 powi E \<and> M < 2 ^ p)"

text \<open>What a trace holds: the wallets fetched, compared and shown in a row, the lines printed.\<close>

fun fetched :: "event list \<Rightarrow> Wallet list" where
  "fetched [] = []"
| "fetched (Fetch w # es) = w # fetched es"
| "fetched (e # es) = fetched es"

fun compared :: "event list \<Rightarrow> Wallet list" where
  "compared [] = []"
| "compared (Compare w b # es) = w # compared es"
| "compared (e # es) = compared es"

fun displayed :: "event list \<Rightarrow> string list" where
  "displayed [] = []"
| "displayed (Print (Row a x y z) # es) = a # displayed es"
| "displayed (e # es) = displayed es"

fun printed :: "event list \<Rightarrow> line list" where
  "printed [] = []"
| "printed (Print l # es) = l # printed es"
| "printed (e # es) = printed es"

fun posted :: "event list \<Rightarrow> string list" where
  "posted [] = []"
| "posted (Post url body # es) = body # posted es"
| "posted (e # es) = posted es"

text \<open>
  The set-up of a network succeeds: the threshold parses, the type is one of the three
  and, for an EVM network, the dial succeeds. \<open>fetcher_of\<close> is the call that the loop of
  that type makes for a wallet, and \<open>first_fetch\<close> the number of network calls before the
  loop starts.
\<close>

definition setup_ok :: "World \<Rightarrow> nat \<Rightarrow> NetworkConfig \<Rightarrow> bool" where
  "setup_ok W t nc \<longleftrightarrow>
     big_Float_SetString W (Threshold nc) \<noteq> None \<and>
     (Type nc = ''evm'' \<and> rpc_DialContext W t (RPC nc) = None
      \<or> Type nc = ''icon'' \<or> Type nc = ''cosmos'')"

definition fetcher_of :: "NetworkConfig \<Rightarrow> fetcher" where
  "fetcher_of nc =
     (if Type nc = ''evm'' then fetch_evm else if Type nc = ''icon'' then fetch_icon
      else fetch_cosmos)"

definition fetch_succeeds :: "World \<Rightarrow> NetworkConfig \<Rightarrow> bool" where
  "fetch_succeeds W nc \<longleftrightarrow> (\<forall>t w. \<exists>v. snd (fetcher_of nc W t nc w) = Inr v)"

text \<open>The integer that a digit string with an optional sign denotes.\<close>

definition integer_value :: "nat \<Rightarrow> string \<Rightarrow> int" where
  "integer_value b s =
     (if fst (strip_sign s) then - digits_value b (snd (strip_sign s))
      else digits_value b (snd (strip_sign s)))"

text \<open>A fetcher that prints no row of the table.\<close>

definition no_rows :: "line list \<Rightarrow> bool" where
  "no_rows ls \<longleftrightarrow> displayed (map Print ls) = []"

text \<open>
  What the wallet loop does for a balance after the comparison: the alert, if the balance
  is under the threshold.
\<close>

definition alert_step :: "World \<Rightarrow> NetworkConfig \<Rightarrow> Float \<Rightarrow> nat \<Rightarrow> Wallet \<Rightarrow> int \<Rightarrow> event list \<times> nat" where
  "alert_step W nc thr t w balance =
     (if exceedsBalanceThreshold (toDecimalUnit balance (Decimals nc)) thr
      then sendAlert W (t + 1) (Name nc) (Address w)
             (Float_String W (toDecimalUnit balance (Decimals nc))) (Float_String W thr)
             (Coin nc) (Explorer nc)
      else ([], t + 1))"

text \<open>The number of digits behind the radix point of a decimal literal.\<close>

definition fraction_digits :: "string \<Rightarrow> nat" where
  "fraction_digits s = (case scan_decimal s of None \<Rightarrow> 0 | Some (neg, m, fr) \<Rightarrow> fr)"

section \<open>A configuration and a world to run the program on\<close>

text \<open>
  One EVM network with three wallets, the second with its alert switched off. In
  \<open>world0\<close> every call succeeds: each balance is \<open>0x6f05b59d3b20000\<close> wei, half a coin,
  under the threshold of 1.0, and the webhook answers every POST with status 500.
\<close>

definition wallet_a :: Wallet where
  "wallet_a = \<lparr>Address = ''0xaaa'', Wallet_Name = ''a'', Alert = True\<rparr>"

definition wallet_b :: Wallet where
  "wallet_b = \<lparr>Address = ''0xbbb'', Wallet_Name = ''b'', Alert = False\<rparr>"

definition wallet_c :: Wallet where
  "wallet_c = \<lparr>Address = ''0xccc'', Wallet_Name = ''c'', Alert = True\<rparr>"

definition net_evm :: NetworkConfig where
  "net_evm =
     \<lparr>Type = ''evm'', RPC = ''https://rpc'', Explorer = ''https://scan'', Coin = ''ETH'',
      Name = ''Ethereum'', Decimals = 18, Threshold = ''1.0'',
      Wallets = [wallet_a, wallet_b, wallet_c]\<rparr>"

definition uatom_body :: string where
  \<open>uatom_body = ''{"balances":[{"denom":"uatom","amount":"2500000"}]}''\<close>

definition uatom_response :: CosmosBalance where
  "uatom_response = \<lparr>Balances = [\<lparr>Denom = ''uatom'', Amount = ''2500000''\<rparr>]\<rparr>"

definition world0 :: World where
  "world0 =
     \<lparr>os_ReadFile = (\<lambda>path. Inr ''config''),
      Unmarshal_ChainConfig = (\<lambda>content. Inr \<lparr>Chains = [net_evm]\<rparr>),
      Unmarshal_CosmosBalance = (\<lambda>body. Inr uatom_response),
      json_Marshal = (\<lambda>fields. Inr ''{json}''),
      big_Float_SetString = Float_SetString,
      Float_String = (\<lambda>f. ''float''),
      Int_String = (\<lambda>i. ''int''),
      HexInt_BigInt = (\<lambda>h. Inr 0),
      telegramBotToken = ''token'',
      discordWebhookURL = ''https://discord/webhook'',
      rpc_DialContext = (\<lambda>t url. None),
      eth_getBalance = (\<lambda>t client address. Inr ''0x6f05b59d3b20000''),
      icon_GetBalance = (\<lambda>t client address. Inr ''0x0''),
      http_Get = (\<lambda>t url. GetBody (Inr uatom_body)),
      http_Post = (\<lambda>t url body. PostResponse 500)\<rparr>"


definition world_12abc :: World where
  "world_12abc =
     world0\<lparr>Unmarshal_CosmosBalance :=
       (\<lambda>body. Inr \<lparr>Balances = [\<lparr>Denom = ''uatom'', Amount = ''12abc''\<rparr>]\<rparr>)\<rparr>"

definition world_down :: World where
  "world_down = world0\<lparr>eth_getBalance := (\<lambda>t client address. Inl (External ''timeout''))\<rparr>"

definition world_flaky :: World where
  "world_flaky =
     world0\<lparr>eth_getBalance :=
       (\<lambda>t client address. if t = 1 then Inl (External ''timeout'') else Inr ''0x6f05b59d3b20000'')\<rparr>"

definition world_200 :: World where
  "world_200 = world0\<lparr>http_Post := (\<lambda>t url body. PostResponse 200)\<rparr>"

definition world_refused :: World where
  "world_refused =
     world0\<lparr>http_Post := (\<lambda>t url body. PostError (External ''connection refused'') None)\<rparr>"


text \<open>The trace of the run in \<open>world0\<close>, and the message of its two alerts.\<close>

definition world0_trace :: "event list" where
  "world0_trace =
     [Print (NetworkLine ''Ethereum''), Print (TableHeader ''ETH''), Print Rule, Dial ''https://rpc'',
      Fetch wallet_a, Print (Row ''0xaaa'' ''float'' ''int'' ''float''), Compare wallet_a True,
      Post ''https://discord/webhook'' ''{json}'',
      Fetch wallet_c, Print (Row ''0xccc'' ''float'' ''int'' ''float''), Compare wallet_c True,
      Post ''https://discord/webhook'' ''{json}'', Print BlankLines]"

definition world0_message :: string where
  "world0_message = alert_message ''Ethereum'' ''0xaaa'' ''float'' ''float'' ''ETH'' ''https://scan''"

section \<open>Bit lengths, comparison and rounding\<close>

subsection \<open>Bit lengths\<close>

lemma BitLen_0 [simp]: "BitLen 0 = 0" by (simp add: BitLen_def bit_len.simps)
lemma BitLen_1 [simp]: "BitLen 1 = 1" by (simp add: BitLen_def bit_len.simps)
lemma BitLen_Bit0 [simp]: "BitLen (numeral (Num.Bit0 k)) = BitLen (numeral k) + 1"
  unfolding BitLen_def by (subst bit_len.simps) simp
lemma BitLen_Bit1 [simp]: "BitLen (numeral (Num.Bit1 k)) = BitLen (numeral k) + 1"
  unfolding BitLen_def by (subst bit_len.simps) simp
lemma BitLen_minus [simp]: "BitLen (- x) = BitLen x"
  by (simp add: BitLen_def)

lemma bit_len_pos: "0 < n \<Longrightarrow> 0 < bit_len n"
  by (subst bit_len.simps) simp

lemma bit_len_bounds: "0 < n \<Longrightarrow> 2 ^ (bit_len n - 1) \<le> n \<and> n < 2 ^ bit_len n"
proof (induction n rule: bit_len.induct)
  case (1 n)
  show ?case
  proof (cases "n div 2 = 0")
    case True
    with 1 have "n = 1" by presburger
    then show ?thesis by (simp add: bit_len.simps)
  next
    case False
    then have h: "0 < n div 2" by simp
    define k where "k = bit_len (n div 2)"
    from 1 h have ih: "2 ^ (k - 1) \<le> n div 2" "n div 2 < 2 ^ k"
      by (simp_all add: k_def)
    have kpos: "0 < k" using bit_len_pos [OF h] by (simp add: k_def)
    have bl: "bit_len n = k + 1"
      using 1(2) by (subst bit_len.simps) (simp add: k_def)
    have "(2::nat) ^ k = 2 * 2 ^ (k - 1)" using kpos by (cases k) simp_all
    then have lo: "(2::nat) ^ k \<le> n" using ih(1) by presburger
    have "n div 2 + 1 \<le> 2 ^ k" using ih(2) by simp
    then have hi: "n < 2 ^ (k + 1)" by simp
    show ?thesis using lo hi by (simp add: bl)
  qed
qed

lemma BitLen_pos: "a \<noteq> 0 \<Longrightarrow> 0 < BitLen a"
  by (simp add: BitLen_def bit_len_pos)

lemma BitLen_nonneg: "0 \<le> BitLen a"
  by (simp add: BitLen_def)

lemma BitLen_bounds:
  assumes "0 < a"
  shows "2 ^ nat (BitLen a - 1) \<le> a" and "a < 2 ^ nat (BitLen a)"
proof -
  have n: "0 < nat a" using assms by simp
  from bit_len_bounds [OF n] have "int (2 ^ (bit_len (nat a) - 1)) \<le> int (nat a)"
    and "int (nat a) < int (2 ^ bit_len (nat a))"
    by (simp_all only: of_nat_le_iff of_nat_less_iff)
  moreover have "nat (BitLen a - 1) = bit_len (nat a) - 1" "nat (BitLen a) = bit_len (nat a)"
    using assms by (simp_all add: BitLen_def)
  ultimately show "2 ^ nat (BitLen a - 1) \<le> a" and "a < 2 ^ nat (BitLen a)"
    using assms by simp_all
qed

lemma BitLen_le_iff: "0 < a \<Longrightarrow> BitLen a \<le> int p \<longleftrightarrow> a < 2 ^ p"
proof
  assume a: "0 < a" and "BitLen a \<le> int p"
  then have "nat (BitLen a) \<le> p" by simp
  then have "(2::int) ^ nat (BitLen a) \<le> 2 ^ p" by simp
  with BitLen_bounds(2) [OF a] show "a < 2 ^ p" by (rule less_le_trans)
next
  assume a: "0 < a" and lt: "a < 2 ^ p"
  show "BitLen a \<le> int p"
  proof (rule ccontr)
    assume "\<not> BitLen a \<le> int p"
    then have "p \<le> nat (BitLen a - 1)" by simp
    then have "(2::int) ^ p \<le> 2 ^ nat (BitLen a - 1)" by simp
    with BitLen_bounds(1) [OF a] lt show False by linarith
  qed
qed

subsection \<open>Comparison\<close>

lemma valueF_align:
  assumes "e \<le> fexp x"
  shows "valueF x = of_int (fmant x * 2 ^ nat (fexp x - e)) * 2 powi e"
proof -
  have "fexp x = int (nat (fexp x - e)) + e" using assms by simp
  then have "(2::rat) powi fexp x = 2 powi int (nat (fexp x - e)) * 2 powi e"
    by (metis power_int_add zero_neq_numeral)
  also have "(2::rat) powi int (nat (fexp x - e)) = 2 ^ nat (fexp x - e)"
    by (rule power_int_of_nat)
  finally show ?thesis by (simp add: valueF_def)
qed

lemma Float_Cmp_less: "Float_Cmp x y = - 1 \<longleftrightarrow> valueF x < valueF y"
proof -
  define e where "e = min (fexp x) (fexp y)"
  define a where "a = fmant x * 2 ^ nat (fexp x - e)"
  define b where "b = fmant y * 2 ^ nat (fexp y - e)"
  have vx: "valueF x = of_int a * 2 powi e" and vy: "valueF y = of_int b * 2 powi e"
    using valueF_align [of e x] valueF_align [of e y] by (simp_all add: e_def a_def b_def)
  have pos: "(0::rat) < 2 powi e" by simp
  have "valueF x < valueF y \<longleftrightarrow> a < b"
    unfolding vx vy using pos by (simp add: mult_less_cancel_right_pos)
  moreover have "Float_Cmp x y = - 1 \<longleftrightarrow> a < b"
    by (simp add: Float_Cmp_def Let_def e_def [symmetric] a_def [symmetric] b_def [symmetric])
  ultimately show ?thesis by simp
qed

lemma Float_Cmp_eq: "Float_Cmp x y = 0 \<longleftrightarrow> valueF x = valueF y"
proof -
  define e where "e = min (fexp x) (fexp y)"
  define a where "a = fmant x * 2 ^ nat (fexp x - e)"
  define b where "b = fmant y * 2 ^ nat (fexp y - e)"
  have vx: "valueF x = of_int a * 2 powi e" and vy: "valueF y = of_int b * 2 powi e"
    using valueF_align [of e x] valueF_align [of e y] by (simp_all add: e_def a_def b_def)
  have "valueF x = valueF y \<longleftrightarrow> a = b"
    unfolding vx vy by simp
  moreover have "Float_Cmp x y = 0 \<longleftrightarrow> a = b"
    by (auto simp add: Float_Cmp_def Let_def e_def [symmetric] a_def [symmetric] b_def [symmetric])
  ultimately show ?thesis by simp
qed

subsection \<open>Rounding a quotient\<close>

lemma scaled_pos: "0 < a \<Longrightarrow> 0 < scaled_num a e" "0 < b \<Longrightarrow> 0 < scaled_den b e"
  by (simp_all add: scaled_num_def scaled_den_def)

lemma scaled_ratio:
  "(of_int (scaled_num a e) :: rat) / of_int (scaled_den b e) = of_int a / of_int b * 2 powi (- e)"
  by (cases "0 \<le> e") (simp_all add: scaled_num_def scaled_den_def power_int_def field_simps)

lemma powi_nonneg_eq: "0 \<le> n \<Longrightarrow> (2::rat) powi n = 2 ^ nat n"
  by (simp add: power_int_def)

lemma BitLen_rat_bounds:
  assumes "0 < a"
  shows "(2::rat) powi (BitLen a - 1) \<le> of_int a" and "(of_int a :: rat) < 2 powi BitLen a"
proof -
  have "0 < BitLen a" using assms by (simp add: BitLen_pos)
  then have e1: "(2::rat) powi (BitLen a - 1) = of_int (2 ^ nat (BitLen a - 1))"
    and e2: "(2::rat) powi BitLen a = of_int (2 ^ nat (BitLen a))"
    by (simp_all add: powi_nonneg_eq)
  show "(2::rat) powi (BitLen a - 1) \<le> of_int a"
    unfolding e1 using BitLen_bounds(1) [OF assms] by (simp only: of_int_le_iff)
  show "(of_int a :: rat) < 2 powi BitLen a"
    unfolding e2 using BitLen_bounds(2) [OF assms] by (simp only: of_int_less_iff)
qed

lemma quo_exp_lower:
  assumes a: "0 < a" and b: "0 < b" and p: "0 < p"
  shows "(2::rat) ^ (p - 1) \<le> of_int a / of_int b * 2 powi (- quo_exp p a b)"
proof -
  define r :: rat where "r = of_int a / of_int b"
  define e0 where "e0 = BitLen a - BitLen b - int p"
  have rpos: "0 < r" using a b by (simp add: r_def)
  have bpos: "(0::rat) < of_int b" using b by simp
  have "(2::rat) powi (BitLen a - 1) / 2 powi BitLen b < r"
  proof -
    have "(2::rat) powi (BitLen a - 1) / 2 powi BitLen b \<le> of_int a / 2 powi BitLen b"
      using BitLen_rat_bounds(1) [OF a] by (simp add: divide_right_mono)
    also have "\<dots> < of_int a / of_int b"
      using BitLen_rat_bounds(2) [OF b] a bpos by (simp add: divide_strict_left_mono)
    finally show ?thesis by (simp add: r_def)
  qed
  then have rlow: "(2::rat) powi (BitLen a - 1 - BitLen b) < r"
    by (simp add: power_int_diff)
  have half: "(2::rat) ^ p = 2 * 2 ^ (p - 1)" using p by (cases p) simp_all
  show ?thesis
  proof (cases "scaled_den b e0 * 2 ^ p \<le> scaled_num a e0")
    case True
    then have qe: "quo_exp p a b = e0 + 1" by (simp add: quo_exp_def e0_def Let_def)
    from True have "(of_int (scaled_den b e0 * 2 ^ p) :: rat) \<le> of_int (scaled_num a e0)"
      by (simp only: of_int_le_iff)
    then have "(2::rat) ^ p \<le> of_int (scaled_num a e0) / of_int (scaled_den b e0)"
      using scaled_pos(2) [OF b, of e0] by (simp add: field_simps)
    then have "(2::rat) ^ p \<le> r * 2 powi (- e0)" by (simp add: scaled_ratio r_def)
    then have A: "2 * (2::rat) ^ (p - 1) \<le> r * 2 powi (- e0)" unfolding half .
    have B: "r * 2 powi (- (e0 + 1)) = r * 2 powi (- e0) / 2"
      by (simp add: power_int_diff power_int_minus field_simps power_int_add)
    show ?thesis unfolding qe r_def [symmetric] B using A by linarith
  next
    case False
    then have qe: "quo_exp p a b = e0" by (simp add: quo_exp_def e0_def Let_def)
    have "(2::rat) powi (BitLen a - 1 - BitLen b) * 2 powi (- e0) < r * 2 powi (- e0)"
      using rlow by (simp add: mult_less_cancel_right_pos)
    moreover have "(2::rat) powi (BitLen a - 1 - BitLen b) * 2 powi (- e0) = 2 powi (int p - 1)"
      by (simp add: power_int_add [symmetric] e0_def)
    moreover have "(2::rat) powi (int p - 1) = 2 ^ (p - 1)"
      using p by (simp add: powi_nonneg_eq nat_diff_distrib)
    ultimately show ?thesis unfolding qe r_def [symmetric] by simp
  qed
qed

lemma round_even_exact: "0 < d \<Longrightarrow> round_even (k * d) d = k"
  by (simp add: round_even_def)

lemma round_quo_exact:
  assumes a: "0 < a" and b: "0 < b" and p: "0 < p"
    and rep: "(of_int a :: rat) / of_int b = of_int M * 2 powi E" and M: "M < 2 ^ p"
  shows "quo_value (round_quo p a b) = of_int a / of_int b"
proof -
  define r :: rat where "r = of_int a / of_int b"
  define e where "e = quo_exp p a b"
  define N where "N = scaled_num a e"
  define D where "D = scaled_den b e"
  have rpos: "0 < r" using a b by (simp add: r_def)
  have Dpos: "0 < D" using b by (simp add: D_def scaled_pos)
  have ratio: "(of_int N :: rat) / of_int D = r * 2 powi (- e)"
    by (simp add: N_def D_def r_def scaled_ratio)
  have lower: "(2::rat) ^ (p - 1) \<le> r * 2 powi (- e)"
    using quo_exp_lower [OF a b p] by (simp add: r_def e_def)
  have Mpos: "0 < M"
  proof -
    have "0 < (of_int M :: rat) * 2 powi E" using rpos rep by (simp add: r_def)
    then have "0 < M \<or> M < 0 \<and> (2::rat) powi E < 0" by (simp add: zero_less_mult_iff)
    moreover have "\<not> (2::rat) powi E < 0" by (simp add: not_less)
    ultimately show ?thesis by blast
  qed
  have rM: "r * 2 powi (- e) = of_int M * 2 powi (E - e)"
  proof -
    have "r * 2 powi (- e) = of_int M * (2 powi E * 2 powi (- e))"
      using rep by (simp add: r_def)
    also have "(2::rat) powi E * 2 powi (- e) = 2 powi (E + (- e))"
      by (rule power_int_add [symmetric]) simp
    finally show ?thesis by simp
  qed
  have eE: "e \<le> E"
  proof (rule ccontr)
    assume "\<not> e \<le> E"
    then have "E - e \<le> - 1" by simp
    then have "(2::rat) powi (E - e) \<le> 2 powi (- 1)"
      by (intro power_int_increasing) simp_all
    then have "(2::rat) powi (E - e) \<le> 1 / 2" by (simp add: power_int_minus)
    then have "of_int M * (2::rat) powi (E - e) \<le> of_int M * (1 / 2)"
      using Mpos by (intro mult_left_mono) simp_all
    moreover have "(of_int M :: rat) < 2 ^ p"
    proof -
      have "(of_int M :: rat) < of_int (2 ^ p)" using M by (simp only: of_int_less_iff)
      then show ?thesis by simp
    qed
    moreover have "(2::rat) ^ p = 2 * 2 ^ (p - 1)" using p by (cases p) simp_all
    ultimately show False using lower rM by linarith
  qed
  define K where "K = M * 2 ^ nat (E - e)"
  have "(2::rat) powi (E - e) = 2 ^ nat (E - e)" using eE by (simp add: powi_nonneg_eq)
  then have rK: "r * 2 powi (- e) = of_int K" using rM by (simp add: K_def)
  with ratio have "(of_int N :: rat) / of_int D = of_int K" by simp
  then have "(of_int N :: rat) = of_int K * of_int D" using Dpos by (simp add: field_simps)
  then have "(of_int N :: rat) = of_int (K * D)" by simp
  then have NK: "N = K * D" by (simp only: of_int_eq_iff)
  have re: "round_even N D = K" unfolding NK using Dpos by (rule round_even_exact)
  have "quo_value (round_quo p a b) = of_int K * 2 powi e"
    by (simp add: quo_value_def round_quo_def Let_def e_def [symmetric] N_def [symmetric] D_def [symmetric] re)
  also have "\<dots> = r * 2 powi (- e) * 2 powi e"
    using rK by simp
  also have "\<dots> = r * (2 powi (- e) * 2 powi e)" by simp
  also have "(2::rat) powi (- e) * 2 powi e = 2 powi (- e + e)"
    by (rule power_int_add [symmetric]) simp
  also have "r * 2 powi (- e + e) = r" by simp
  finally show ?thesis by (simp add: r_def)
qed

lemma round_even_error:
  assumes d: "0 < d" and n: "0 \<le> n"
  shows "\<bar>of_int (round_even n d) - (of_int n / of_int d :: rat)\<bar> \<le> 1 / 2"
proof -
  define q where "q = n div d"
  define r where "r = n mod d"
  define f :: rat where "f = of_int r / of_int d"
  have r0: "0 \<le> r" and rd: "r < d" using d by (simp_all add: r_def)
  have dq: "(0::rat) < of_int d" using d by simp
  have "n = q * d + r" by (simp add: q_def r_def)
  then have "(of_int n :: rat) = of_int q * of_int d + of_int r" by (metis of_int_add of_int_mult)
  then have nd: "(of_int n :: rat) / of_int d = of_int q + f"
    using dq by (simp add: f_def field_simps)
  have f_lt: "f < 1 / 2" if "2 * r < d"
  proof -
    have "(of_int (2 * r) :: rat) < of_int d" using that by (simp only: of_int_less_iff)
    then show ?thesis using dq by (simp add: f_def field_simps)
  qed
  have f_gt: "1 / 2 < f" if "d < 2 * r"
  proof -
    have "(of_int d :: rat) < of_int (2 * r)" using that by (simp only: of_int_less_iff)
    then show ?thesis using dq by (simp add: f_def field_simps)
  qed
  have f_eq: "f = 1 / 2" if "\<not> 2 * r < d" "\<not> d < 2 * r"
  proof -
    have "d = 2 * r" using that by simp
    then have "(of_int d :: rat) = 2 * of_int r" by simp
    then show ?thesis using dq by (simp add: f_def field_simps)
  qed
  have f0: "0 \<le> f" using r0 dq by (simp add: f_def)
  have f1: "f < 1"
  proof -
    have "(of_int r :: rat) < of_int d" using rd by (simp only: of_int_less_iff)
    then show ?thesis using dq by (simp add: f_def field_simps)
  qed
  consider (lo) "2 * r < d" | (hi) "d < 2 * r" | (tie) "\<not> 2 * r < d" "\<not> d < 2 * r"
    by blast
  then show ?thesis
  proof cases
    case lo
    then have "round_even n d = q" by (simp add: round_even_def Let_def q_def r_def)
    then show ?thesis unfolding nd using f_lt [OF lo] f0 by simp
  next
    case hi
    then have "round_even n d = q + 1" by (simp add: round_even_def Let_def q_def r_def)
    then show ?thesis unfolding nd using f_gt [OF hi] f1 by simp
  next
    case tie
    then have "round_even n d = q \<or> round_even n d = q + 1"
      by (simp add: round_even_def Let_def q_def r_def)
    then show ?thesis unfolding nd using f_eq [OF tie] by auto
  qed
qed

lemma round_quo_error:
  assumes a: "0 < a" and b: "0 < b" and p: "0 < p"
  shows "\<bar>quo_value (round_quo p a b) - (of_int a / of_int b :: rat)\<bar>
         \<le> of_int a / of_int b / 2 ^ p"
proof -
  define r :: rat where "r = of_int a / of_int b"
  define e where "e = quo_exp p a b"
  define N where "N = scaled_num a e"
  define D where "D = scaled_den b e"
  define m where "m = round_even N D"
  define u :: rat where "u = 2 powi e"
  have upos: "0 < u" by (simp add: u_def)
  have Dpos: "0 < D" using b by (simp add: D_def scaled_pos)
  have Npos: "0 \<le> N" using a scaled_pos(1) [of a e] by (simp add: N_def)
  have ui: "2 powi (- e) = 1 / u" by (simp add: u_def power_int_minus field_simps)
  have ratio: "(of_int N :: rat) / of_int D = r / u"
    by (simp add: N_def D_def r_def scaled_ratio ui)
  have "(2::rat) ^ (p - 1) \<le> r * 2 powi (- e)"
    using quo_exp_lower [OF a b p] unfolding r_def e_def .
  then have lower: "(2::rat) ^ (p - 1) \<le> r / u" by (simp only: ui) simp
  have half: "(2::rat) ^ p = 2 * 2 ^ (p - 1)" using p by (cases p) simp_all
  have err: "\<bar>of_int m - r / u\<bar> \<le> 1 / 2"
    using round_even_error [OF Dpos Npos] by (simp add: m_def ratio)
  have qv: "quo_value (round_quo p a b) = of_int m * u"
    by (simp add: quo_value_def round_quo_def Let_def e_def [symmetric] N_def [symmetric]
        D_def [symmetric] m_def u_def)
  have "\<bar>of_int m * u - r\<bar> = \<bar>of_int m - r / u\<bar> * u"
  proof -
    have "of_int m * u - r = (of_int m - r / u) * u" using upos by (simp add: field_simps)
    then show ?thesis using upos by (simp add: abs_mult)
  qed
  also have "\<dots> \<le> 1 / 2 * u" using err upos by (intro mult_right_mono) simp_all
  also have "\<dots> \<le> r / 2 ^ p"
  proof -
    have "2 ^ (p - 1) * u \<le> r" using lower upos by (simp add: field_simps)
    then have "2 ^ p * (1 / 2 * u) \<le> r" unfolding half by simp
    then show ?thesis by (simp add: field_simps)
  qed
  finally show ?thesis by (simp add: qv r_def)
qed

subsection \<open>toDecimalUnit\<close>

lemma toDecimalUnit_prec:
  "fprec (toDecimalUnit B d) = max (nat (max (BitLen B) 64)) (nat (max (BitLen (10 ^ unat d)) 64))"
  by (simp add: toDecimalUnit_def Float_Quo_def Float_SetInt_def Let_def split: prod.split)

lemma toDecimalUnit_prec_ge: "64 \<le> fprec (toDecimalUnit B d)" "BitLen B \<le> int (fprec (toDecimalUnit B d))"
  unfolding toDecimalUnit_prec by simp_all

lemma toDecimalUnit_zero: "valueF (toDecimalUnit 0 d) = 0"
  by (simp add: toDecimalUnit_def Float_Quo_def Float_SetInt_def Let_def valueF_def)

lemma toDecimalUnit_value:
  assumes "B \<noteq> 0"
  shows "valueF (toDecimalUnit B d) =
    of_int (sgn B) * quo_value (round_quo (fprec (toDecimalUnit B d)) \<bar>B\<bar> (10 ^ unat d))"
proof -
  have s: "sgn ((10::int) ^ unat d) = 1" by simp
  show ?thesis
    unfolding toDecimalUnit_prec using assms
    by (simp add: toDecimalUnit_def Float_Quo_def Float_SetInt_def Let_def valueF_def quo_value_def
        split: prod.split)
qed

lemma dyadic_times_pow10:
  assumes "(of_int m :: rat) * 2 powi e * 10 ^ D = of_int B"
  shows "5 ^ D dvd B"
proof (cases "0 \<le> e")
  case True
  then have "(2::rat) powi e = of_int (2 ^ nat e)" by (simp add: powi_nonneg_eq)
  with assms have "(of_int (m * 2 ^ nat e * 10 ^ D) :: rat) = of_int B" by simp
  then have "m * 2 ^ nat e * 10 ^ D = B" by (simp only: of_int_eq_iff)
  moreover have "(5::int) ^ D dvd 10 ^ D" by (rule dvd_power_same) simp
  ultimately show ?thesis using dvd_mult by blast
next
  case False
  then have "(2::rat) powi e = 1 / of_int (2 ^ nat (- e))"
    by (simp add: power_int_def field_simps)
  with assms have "(of_int (m * 10 ^ D) :: rat) = of_int (B * 2 ^ nat (- e))"
    by (simp add: field_simps)
  then have eq: "m * 10 ^ D = B * 2 ^ nat (- e)" by (simp only: of_int_eq_iff)
  have "(5::int) ^ D dvd 10 ^ D" by (rule dvd_power_same) simp
  then have "(5::int) ^ D dvd B * 2 ^ nat (- e)" using eq by (metis dvd_mult)
  moreover have "coprime ((5::int) ^ D) (2 ^ nat (- e))" by simp
  ultimately show ?thesis by (simp add: coprime_dvd_mult_left_iff)
qed

lemma toDecimalUnit_exact:
  assumes "5 ^ unat d dvd B"
  shows "valueF (toDecimalUnit B d) = of_int B / 10 ^ unat d"
proof (cases "B = 0")
  case True
  then show ?thesis by (simp add: toDecimalUnit_zero)
next
  case False
  define D where "D = unat d"
  define p where "p = fprec (toDecimalUnit B d)"
  define M where "M = \<bar>B\<bar> div 5 ^ D"
  have a: "0 < \<bar>B\<bar>" using False by simp
  have b: "(0::int) < 10 ^ D" by simp
  have p: "0 < p" using toDecimalUnit_prec_ge(1) [of B d] by (simp add: p_def)
  have "5 ^ D dvd \<bar>B\<bar>" using assms by (simp add: D_def)
  then have BM: "\<bar>B\<bar> = M * 5 ^ D" by (simp add: M_def)
  have ten: "(10::rat) ^ D = 5 ^ D * 2 ^ D" by (simp flip: power_mult_distrib)
  have rep: "(of_int \<bar>B\<bar> :: rat) / of_int (10 ^ D) = of_int M * 2 powi (- int D)"
    by (simp add: BM ten power_int_minus field_simps)
  have "0 \<le> M" by (simp add: M_def pos_imp_zdiv_nonneg_iff)
  moreover have "(1::int) \<le> 5 ^ D" by simp
  ultimately have "M * 1 \<le> M * 5 ^ D" by (intro mult_left_mono)
  then have "M \<le> \<bar>B\<bar>" using BM by simp
  moreover have "\<bar>B\<bar> < 2 ^ p"
  proof -
    have "BitLen \<bar>B\<bar> \<le> int p" using toDecimalUnit_prec_ge(2) [of B d] by (simp add: p_def BitLen_def)
    then show ?thesis using a by (simp only: BitLen_le_iff)
  qed
  ultimately have M: "M < 2 ^ p" by simp
  have "quo_value (round_quo p \<bar>B\<bar> (10 ^ D)) = of_int \<bar>B\<bar> / of_int (10 ^ D)"
    using a b p rep M by (rule round_quo_exact)
  then have "valueF (toDecimalUnit B d) = of_int (sgn B) * (of_int \<bar>B\<bar> / of_int (10 ^ D))"
    using toDecimalUnit_value [OF False, of d] by (simp add: p_def D_def)
  also have "\<dots> = of_int (sgn B * \<bar>B\<bar>) / 10 ^ D" by simp
  also have "sgn B * \<bar>B\<bar> = B" by (simp add: mult_sgn_abs)
  finally show ?thesis by (simp add: D_def)
qed

lemma toDecimalUnit_product_iff:
  "valueF (toDecimalUnit B d) * 10 ^ unat d = of_int B \<longleftrightarrow> 5 ^ unat d dvd B"
proof
  assume "valueF (toDecimalUnit B d) * 10 ^ unat d = of_int B"
  then show "5 ^ unat d dvd B" unfolding valueF_def by (rule dyadic_times_pow10)
next
  assume "5 ^ unat d dvd B"
  then show "valueF (toDecimalUnit B d) * 10 ^ unat d = of_int B"
    by (simp add: toDecimalUnit_exact)
qed

lemma toDecimalUnit_error:
  "\<bar>valueF (toDecimalUnit B d) - of_int B / 10 ^ unat d\<bar>
     \<le> \<bar>of_int B / 10 ^ unat d\<bar> / 2 ^ fprec (toDecimalUnit B d)"
proof (cases "B = 0")
  case True
  then show ?thesis by (simp add: toDecimalUnit_zero)
next
  case False
  define p where "p = fprec (toDecimalUnit B d)"
  define v where "v = quo_value (round_quo p \<bar>B\<bar> (10 ^ unat d))"
  define x :: rat where "x = of_int \<bar>B\<bar> / of_int (10 ^ unat d)"
  have a: "0 < \<bar>B\<bar>" using False by simp
  have b: "(0::int) < 10 ^ unat d" by simp
  have p: "0 < p" using toDecimalUnit_prec_ge(1) [of B d] by (simp add: p_def)
  have e: "\<bar>v - x\<bar> \<le> x / 2 ^ p" unfolding v_def x_def using a b p by (rule round_quo_error)
  have val: "valueF (toDecimalUnit B d) = of_int (sgn B) * v"
    using toDecimalUnit_value [OF False, of d] by (simp add: v_def p_def)
  have xb: "of_int B / 10 ^ unat d = of_int (sgn B) * x"
  proof -
    have "(of_int B :: rat) = of_int (sgn B * \<bar>B\<bar>)" by (simp add: mult_sgn_abs)
    then show ?thesis by (simp add: x_def)
  qed
  have sg: "\<bar>(of_int (sgn B) :: rat)\<bar> = 1" using False by (simp add: sgn_if)
  have xabs: "\<bar>of_int B / 10 ^ unat d :: rat\<bar> = x" by (simp add: x_def)
  have "\<bar>valueF (toDecimalUnit B d) - of_int B / 10 ^ unat d\<bar> = \<bar>of_int (sgn B) * (v - x)\<bar>"
    by (simp add: val xb algebra_simps)
  also have "\<dots> = \<bar>v - x\<bar>" by (simp add: abs_mult sg)
  finally have "\<bar>valueF (toDecimalUnit B d) - of_int B / 10 ^ unat d\<bar> = \<bar>v - x\<bar>" .
  then show ?thesis unfolding xabs p_def [symmetric] using e by simp
qed

lemma toDecimalUnit_error64:
  "\<bar>valueF (toDecimalUnit B d) - of_int B / 10 ^ unat d\<bar> \<le> \<bar>of_int B / 10 ^ unat d\<bar> / 2 ^ 64"
proof -
  define x :: rat where "x = \<bar>of_int B / 10 ^ unat d\<bar>"
  have "(2::rat) ^ 64 \<le> 2 ^ fprec (toDecimalUnit B d)"
    using toDecimalUnit_prec_ge(1) [of B d] by (intro power_increasing) simp_all
  moreover have "0 \<le> x" by (simp add: x_def)
  ultimately have "x / 2 ^ fprec (toDecimalUnit B d) \<le> x / 2 ^ 64"
    by (intro divide_left_mono) simp_all
  then show ?thesis using toDecimalUnit_error [of B d] by (simp add: x_def)
qed

section \<open>Parsing and the fetchers\<close>

lemma scan_digits_eq:
  "scan_digits b s acc n =
     (foldl (\<lambda>a c. a * int b + int (digit_val c)) acc (takeWhile (\<lambda>c. digit_val c < b) s),
      n + length (takeWhile (\<lambda>c. digit_val c < b) s),
      dropWhile (\<lambda>c. digit_val c < b) s)"
  by (induction s arbitrary: acc n) simp_all

lemma scanSign_strip: "s \<noteq> [] \<Longrightarrow> scanSign s = Some (strip_sign s)"
  by (cases s) simp_all

lemma digit_val_sign [simp]: "digit_val CHR ''+'' = 63" "digit_val CHR ''-'' = 63"
  by (simp_all add: digit_val_def)

lemma Int_SetString_value: "snd (Int_SetString s b) = prefix_value b s"
proof (cases s)
  case Nil
  then show ?thesis by (simp add: Int_SetString_def prefix_value_def digits_value_def)
next
  case (Cons c cs)
  then have "scanSign s = Some (strip_sign s)" by (simp add: scanSign_strip)
  then show ?thesis
    by (cases "strip_sign s")
       (auto simp add: Int_SetString_def prefix_value_def digits_value_def scan_digits_eq Let_def)
qed

lemma Int_SetString_ok: "fst (Int_SetString s b) \<longleftrightarrow> signed_digits b s"
proof (cases s)
  case Nil
  then show ?thesis by (simp add: Int_SetString_def signed_digits_def is_digits_def)
next
  case (Cons c cs)
  then have "scanSign s = Some (strip_sign s)" by (simp add: scanSign_strip)
  moreover have "dropWhile P xs = [] \<longleftrightarrow> (\<forall>x\<in>set xs. P x)" for P and xs :: string
    by (induction xs) auto
  moreover have "takeWhile P xs = [] \<longleftrightarrow> (xs = [] \<or> \<not> P (hd xs))" for P and xs :: string
    by (cases xs) auto
  ultimately show ?thesis
    by (cases "strip_sign s")
       (auto simp add: Int_SetString_def signed_digits_def is_digits_def scan_digits_eq Let_def)
qed

lemma is_digits_no_sign: "is_digits b ds \<Longrightarrow> b \<le> 36 \<Longrightarrow> strip_sign ds = (False, ds)"
  by (cases ds) (auto simp add: is_digits_def)

lemma is_digits_signed: "is_digits b ds \<Longrightarrow> b \<le> 36 \<Longrightarrow> signed_digits b ds"
  by (simp add: signed_digits_def is_digits_no_sign)

lemma takeWhile_all: "\<forall>x\<in>set xs. P x \<Longrightarrow> takeWhile P xs = xs"
  by (induction xs) auto

lemma prefix_value_digits: "is_digits b ds \<Longrightarrow> b \<le> 36 \<Longrightarrow> prefix_value b ds = digits_value b ds"
  by (simp add: prefix_value_def is_digits_no_sign Let_def) (simp add: is_digits_def takeWhile_all)

lemma Int_SetString_digits:
  assumes "is_digits b ds" and "b \<le> 36"
  shows "Int_SetString ds b = (True, digits_value b ds)"
proof -
  have "fst (Int_SetString ds b)" using assms by (simp add: Int_SetString_ok is_digits_signed)
  moreover have "snd (Int_SetString ds b) = digits_value b ds"
    using assms by (simp add: Int_SetString_value prefix_value_digits)
  ultimately show ?thesis by (cases "Int_SetString ds b") simp
qed


lemma upper_char_not_lower: "\<not> (97 \<le> (of_char (upper_char c) :: nat) \<and> (of_char (upper_char c) :: nat) \<le> 122)"
  by (auto simp add: upper_char_def Let_def)

lemma fold_pair_upper: "fold_pair (upper_char c) (upper_char d) \<longleftrightarrow> upper_char c = upper_char d"
proof -
  have c: "\<not> (97 \<le> (of_char (upper_char c) :: nat) \<and> (of_char (upper_char c) :: nat) \<le> 122)"
    by (rule upper_char_not_lower)
  have d: "\<not> (97 \<le> (of_char (upper_char d) :: nat) \<and> (of_char (upper_char d) :: nat) \<le> 122)"
    by (rule upper_char_not_lower)
  show ?thesis
    unfolding fold_pair_def Let_def using c d by (auto simp add: min_def max_def)
qed

lemma EqualFold_ToUpper: "EqualFold (ToUpper s) (ToUpper t) \<longleftrightarrow> same_ignoring_case s t"
proof (induction s arbitrary: t)
  case Nil
  then show ?case by (cases t) (simp_all add: ToUpper_def same_ignoring_case_def)
next
  case (Cons c s)
  show ?case
  proof (cases t)
    case Nil
    then show ?thesis by (simp add: ToUpper_def same_ignoring_case_def)
  next
    case (Cons d t')
    have "EqualFold (ToUpper s) (ToUpper t') \<longleftrightarrow> map upper_char s = map upper_char t'"
      using Cons.IH [of t'] by (simp add: same_ignoring_case_def)
    then show ?thesis
      using Cons by (simp add: ToUpper_def same_ignoring_case_def fold_pair_upper)
  qed
qed

lemma find_balance_eq:
  "find_balance bs denom =
     (case find (\<lambda>c. same_ignoring_case (Denom c) denom) bs of
        None \<Rightarrow> Inl (NoBalanceFound denom)
      | Some c \<Rightarrow> Inr (prefix_value 10 (Amount c)))"
  by (induction bs) (simp_all add: EqualFold_ToUpper Int_SetString_value)

lemma getCosmosBalance_body:
  assumes "http_Get W t (rpc @ ''/cosmos/bank/v1beta1/balances/'' @ address) = GetBody (Inr body)"
    and "Unmarshal_CosmosBalance W body = Inr cb"
  shows "getCosmosBalance W t rpc address denom = ([], find_balance (Balances cb) denom)"
  using assms by (simp add: getCosmosBalance_def)


text \<open>Digits, for evaluation.\<close>

lemma digit_val_simps [simp]:
  "digit_val CHR ''0'' = 0" "digit_val CHR ''1'' = 1" "digit_val CHR ''2'' = 2"
  "digit_val CHR ''3'' = 3" "digit_val CHR ''4'' = 4" "digit_val CHR ''5'' = 5"
  "digit_val CHR ''6'' = 6" "digit_val CHR ''7'' = 7" "digit_val CHR ''8'' = 8"
  "digit_val CHR ''9'' = 9" "digit_val CHR ''a'' = 10" "digit_val CHR ''b'' = 11"
  "digit_val CHR ''c'' = 12" "digit_val CHR ''d'' = 13" "digit_val CHR ''e'' = 14"
  "digit_val CHR ''f'' = 15" "digit_val CHR ''.'' = 63" "digit_val CHR ''x'' = 33"
  by (simp_all add: digit_val_def)


section \<open>The wallet loop\<close>

lemma fetched_append [simp]: "fetched (xs @ ys) = fetched xs @ fetched ys"
  by (induction xs rule: fetched.induct) simp_all

lemma compared_append [simp]: "compared (xs @ ys) = compared xs @ compared ys"
  by (induction xs rule: compared.induct) simp_all

lemma displayed_append [simp]: "displayed (xs @ ys) = displayed xs @ displayed ys"
  by (induction xs rule: displayed.induct) simp_all

lemma printed_append [simp]: "printed (xs @ ys) = printed xs @ printed ys"
  by (induction xs rule: printed.induct) simp_all

lemma fetched_Print [simp]: "fetched (map Print ls) = []"
  by (induction ls) simp_all

lemma compared_Print [simp]: "compared (map Print ls) = []"
  by (induction ls) simp_all

lemma sendDiscordAlert_cases:
  "snd (sendDiscordAlert W t message) = ([], t) \<or>
   (\<exists>jsonMsg. snd (sendDiscordAlert W t message) = ([Post (discordWebhookURL W) jsonMsg], t + 1))"
  by (simp add: sendDiscordAlert_def split: sum.split http_post.split)

lemma sendAlert_events:
  "fetched (fst (sendAlert W t n a b th c e)) = []"
  "compared (fst (sendAlert W t n a b th c e)) = []"
  "displayed (fst (sendAlert W t n a b th c e)) = []"
  "printed (fst (sendAlert W t n a b th c e)) = []"
  using sendDiscordAlert_cases [of W t "alert_message n a b th c e"]
  by (auto simp add: sendAlert_def Let_def)

lemma alert_step_events:
  "fetched (fst (alert_step W nc thr t w balance)) = []"
  "compared (fst (alert_step W nc thr t w balance)) = []"
  "displayed (fst (alert_step W nc thr t w balance)) = []"
  "printed (fst (alert_step W nc thr t w balance)) = []"
  by (simp_all add: alert_step_def sendAlert_events)

lemma wallets_loop_skip:
  "\<not> Alert w \<Longrightarrow> wallets_loop W fetch nc thr t (w # ws) = wallets_loop W fetch nc thr t ws"
  by simp

lemma wallets_loop_error:
  assumes "Alert w" and "fetch W t nc w = (ls, Inl err)"
  shows "wallets_loop W fetch nc thr t (w # ws) =
    (Fetch w # map Print ls @ Print (ErrorLine err) # fst (wallets_loop W fetch nc thr (t + 1) ws),
     snd (wallets_loop W fetch nc thr (t + 1) ws))"
  using assms by (simp add: case_prod_unfold)

lemma wallets_loop_ok:
  assumes "Alert w" and "fetch W t nc w = (ls, Inr balance)"
  shows "wallets_loop W fetch nc thr t (w # ws) =
    (Fetch w # map Print ls
       @ Print (Row (Address w) (Float_String W (toDecimalUnit balance (Decimals nc)))
                  (Int_String W balance) (Float_String W thr))
       # Compare w (exceedsBalanceThreshold (toDecimalUnit balance (Decimals nc)) thr)
       # fst (alert_step W nc thr t w balance)
       @ fst (wallets_loop W fetch nc thr (snd (alert_step W nc thr t w balance)) ws),
     snd (wallets_loop W fetch nc thr (snd (alert_step W nc thr t w balance)) ws))"
  using assms by (simp add: case_prod_unfold Let_def alert_step_def)

lemma wallets_loop_fetched:
  "fetched (fst (wallets_loop W fetch nc thr t ws)) = filter Alert ws"
proof (induction ws arbitrary: t)
  case Nil
  then show ?case by simp
next
  case (Cons w ws)
  show ?case
  proof (cases "Alert w")
    case False
    then show ?thesis using Cons.IH by simp
  next
    case True
    obtain ls r where f: "fetch W t nc w = (ls, r)" by (cases "fetch W t nc w")
    show ?thesis
    proof (cases r)
      case (Inl err)
      then show ?thesis using True f Cons.IH
        by (simp add: wallets_loop_error del: wallets_loop.simps)
    next
      case (Inr balance)
      then show ?thesis using True f Cons.IH
        by (simp add: wallets_loop_ok alert_step_events del: wallets_loop.simps)
    qed
  qed
qed

lemma wallets_loop_compared_subseq:
  "subseq (compared (fst (wallets_loop W fetch nc thr t ws))) (filter Alert ws)"
proof (induction ws arbitrary: t)
  case Nil
  then show ?case by simp
next
  case (Cons w ws)
  show ?case
  proof (cases "Alert w")
    case False
    then show ?thesis using Cons.IH by simp
  next
    case True
    obtain ls r where f: "fetch W t nc w = (ls, r)" by (cases "fetch W t nc w")
    show ?thesis
    proof (cases r)
      case (Inl err)
      then show ?thesis using True f Cons.IH [of "t + 1"]
        by (simp add: wallets_loop_error list_emb_Cons del: wallets_loop.simps)
    next
      case (Inr balance)
      then show ?thesis using True f Cons.IH
        by (simp add: wallets_loop_ok alert_step_events del: wallets_loop.simps)
    qed
  qed
qed

lemma wallets_loop_displayed:
  assumes "\<And>t w. no_rows (fst (fetch W t nc w))"
  shows "displayed (fst (wallets_loop W fetch nc thr t ws)) =
         map Address (compared (fst (wallets_loop W fetch nc thr t ws)))"
proof (induction ws arbitrary: t)
  case Nil
  then show ?case by simp
next
  case (Cons w ws)
  show ?case
  proof (cases "Alert w")
    case False
    then show ?thesis using Cons.IH by simp
  next
    case True
    obtain ls r where f: "fetch W t nc w = (ls, r)" by (cases "fetch W t nc w")
    have nr: "displayed (map Print ls) = []" using assms [of t w] f by (simp add: no_rows_def)
    show ?thesis
    proof (cases r)
      case (Inl err)
      then show ?thesis using True f Cons.IH nr
        by (simp add: wallets_loop_error del: wallets_loop.simps)
    next
      case (Inr balance)
      then show ?thesis using True f Cons.IH nr
        by (simp add: wallets_loop_ok alert_step_events del: wallets_loop.simps)
    qed
  qed
qed

lemma wallets_loop_compared_all:
  assumes "\<And>t w. \<exists>v. snd (fetch W t nc w) = Inr v"
  shows "compared (fst (wallets_loop W fetch nc thr t ws)) = filter Alert ws"
proof (induction ws arbitrary: t)
  case Nil
  then show ?case by simp
next
  case (Cons w ws)
  show ?case
  proof (cases "Alert w")
    case False
    then show ?thesis using Cons.IH by simp
  next
    case True
    obtain ls r where f: "fetch W t nc w = (ls, r)" by (cases "fetch W t nc w")
    obtain balance where "r = Inr balance" using assms [of t w] f by auto
    then show ?thesis using True f Cons.IH
      by (simp add: wallets_loop_ok alert_step_events del: wallets_loop.simps)
  qed
qed

section \<open>The body of the network loop\<close>

lemma fetchers_no_rows:
  "no_rows (fst (fetch_evm W t nc w))" "no_rows (fst (fetch_icon W t nc w))"
  "no_rows (fst (fetch_cosmos W t nc w))"
  by (simp_all add: fetch_evm_def fetch_icon_def fetch_cosmos_def getCosmosBalance_def no_rows_def
      Let_def split: http_get.split sum.split)

lemma fetcher_of_no_rows: "no_rows (fst (fetcher_of nc W t nc' w))"
  by (simp add: fetcher_of_def fetchers_no_rows)

lemma network_body_ok:
  assumes "setup_ok W t nc"
  shows "\<exists>pre thr t0. fst (network_body W t nc) =
            pre @ fst (wallets_loop W (fetcher_of nc) nc thr t0 (Wallets nc)) @ [Print BlankLines] \<and>
          fetched pre = [] \<and> compared pre = [] \<and> displayed pre = []"
proof -
  obtain thr where thr: "big_Float_SetString W (Threshold nc) = Some thr"
    using assms by (auto simp add: setup_ok_def)
  let ?header = "[Print (NetworkLine (Name nc)), Print (TableHeader (Coin nc)), Print Rule]"
  consider (evm) "Type nc = ''evm''" "rpc_DialContext W t (RPC nc) = None"
    | (icon) "Type nc = ''icon''" | (cosmos) "Type nc = ''cosmos''"
    using assms by (auto simp add: setup_ok_def)
  then show ?thesis
  proof cases
    case evm
    then have "fst (network_body W t nc) =
        (?header @ [Dial (RPC nc)]) @ fst (wallets_loop W (fetcher_of nc) nc thr (t + 1) (Wallets nc))
          @ [Print BlankLines]"
      using thr by (simp add: network_body_def fetcher_of_def Let_def case_prod_unfold)
    moreover have "fetched (?header @ [Dial (RPC nc)]) = []" "compared (?header @ [Dial (RPC nc)]) = []"
      "displayed (?header @ [Dial (RPC nc)]) = []" by simp_all
    ultimately show ?thesis by blast
  next
    case icon
    then have "fst (network_body W t nc) =
        ?header @ fst (wallets_loop W (fetcher_of nc) nc thr t (Wallets nc)) @ [Print BlankLines]"
      using thr by (simp add: network_body_def fetcher_of_def Let_def case_prod_unfold)
    moreover have "fetched ?header = []" "compared ?header = []" "displayed ?header = []" by simp_all
    ultimately show ?thesis by blast
  next
    case cosmos
    then have "fst (network_body W t nc) =
        ?header @ fst (wallets_loop W (fetcher_of nc) nc thr t (Wallets nc)) @ [Print BlankLines]"
      using thr by (simp add: network_body_def fetcher_of_def Let_def case_prod_unfold)
    moreover have "fetched ?header = []" "compared ?header = []" "displayed ?header = []" by simp_all
    ultimately show ?thesis by blast
  qed
qed

lemma network_body_not_ok:
  assumes "\<not> setup_ok W t nc"
  shows "fetched (fst (network_body W t nc)) = [] \<and> compared (fst (network_body W t nc)) = [] \<and>
         displayed (fst (network_body W t nc)) = []"
  using assms
  by (auto simp add: network_body_def setup_ok_def Let_def split: option.split)

subsection \<open>The run in \<open>world0\<close>\<close>

lemma threshold_one: "Float_SetString ''1.0'' = Some \<lparr>fprec = 64, fmant = 9223372036854775808, fexp = - 63\<rparr>"
  apply (simp add: Float_SetString_def scan_decimal_def)
  apply (simp add: round_quo_def quo_exp_def scaled_num_def scaled_den_def)
  apply (simp add: round_even_def)
  done

lemma half_coin: "toDecimalUnit 500000000000000000 18 = \<lparr>fprec = 64, fmant = 9223372036854775808, fexp = - 64\<rparr>"
  apply (simp add: toDecimalUnit_def Float_SetInt_def)
  apply (simp add: Float_Quo_def)
  apply (simp add: round_quo_def quo_exp_def scaled_num_def scaled_den_def)
  apply (simp add: round_even_def)
  done

lemma half_below_one:
  "exceedsBalanceThreshold \<lparr>fprec = 64, fmant = 9223372036854775808, fexp = - 64\<rparr>
     \<lparr>fprec = 64, fmant = 9223372036854775808, fexp = - 63\<rparr>"
  by (simp add: exceedsBalanceThreshold_def Float_Cmp_def)

lemma half_hex: "Int_SetString (TrimPrefix ''0x6f05b59d3b20000'' ''0x'') 16 = (True, 500000000000000000)"
  by (simp add: Int_SetString_def TrimPrefix_def)

lemma world0_fetch: "fetch_evm world0 t net_evm w = ([], Inr 500000000000000000)"
  by (simp add: fetch_evm_def getETHBalance_def world0_def half_hex)

lemma world0_alert:
  "alert_step world0 net_evm \<lparr>fprec = 64, fmant = 9223372036854775808, fexp = - 63\<rparr> t w 500000000000000000
     = ([Post ''https://discord/webhook'' ''{json}''], t + 2)"
  by (simp add: alert_step_def net_evm_def half_coin half_below_one sendAlert_def
      sendDiscordAlert_def world0_def)

lemma world0_step:
  assumes "Alert w"
  shows "wallets_loop world0 fetch_evm net_evm \<lparr>fprec = 64, fmant = 9223372036854775808, fexp = - 63\<rparr> t (w # ws) =
    (Fetch w # Print (Row (Address w) ''float'' ''int'' ''float'') # Compare w True
       # Post ''https://discord/webhook'' ''{json}''
       # fst (wallets_loop world0 fetch_evm net_evm \<lparr>fprec = 64, fmant = 9223372036854775808, fexp = - 63\<rparr> (t + 2) ws),
     snd (wallets_loop world0 fetch_evm net_evm \<lparr>fprec = 64, fmant = 9223372036854775808, fexp = - 63\<rparr> (t + 2) ws))"
proof -
  have d: "Decimals net_evm = 18" by (simp add: net_evm_def)
  have s: "Float_String world0 f = ''float''" "Int_String world0 i = ''int''" for f i
    by (simp_all add: world0_def)
  show ?thesis
    unfolding wallets_loop_ok [where fetch = fetch_evm and W = world0, OF assms world0_fetch]
      world0_alert d half_coin s
    using half_below_one by simp
qed

lemma world0_loop:
  "wallets_loop world0 fetch_evm net_evm \<lparr>fprec = 64, fmant = 9223372036854775808, fexp = - 63\<rparr> 1
     [wallet_a, wallet_b, wallet_c] =
   ([Fetch wallet_a, Print (Row ''0xaaa'' ''float'' ''int'' ''float''), Compare wallet_a True,
     Post ''https://discord/webhook'' ''{json}'',
     Fetch wallet_c, Print (Row ''0xccc'' ''float'' ''int'' ''float''), Compare wallet_c True,
     Post ''https://discord/webhook'' ''{json}''], 5)"
proof -
  have a: "Alert wallet_a" and b: "\<not> Alert wallet_b" and c: "Alert wallet_c"
    by (simp_all add: wallet_a_def wallet_b_def wallet_c_def)
  have ad: "Address wallet_a = ''0xaaa''" "Address wallet_c = ''0xccc''"
    by (simp_all add: wallet_a_def wallet_c_def)
  let ?thr = "\<lparr>fprec = 64, fmant = 9223372036854775808, fexp = - 63\<rparr>"
  have e: "(1::nat) + 2 = 3" "(3::nat) + 2 = 5" by simp_all
  have l3: "wallets_loop world0 fetch_evm net_evm ?thr 5 [] = ([], 5)" by simp
  have l2: "wallets_loop world0 fetch_evm net_evm ?thr 3 [wallet_c] =
    ([Fetch wallet_c, Print (Row ''0xccc'' ''float'' ''int'' ''float''), Compare wallet_c True,
      Post ''https://discord/webhook'' ''{json}''], 5)"
    unfolding world0_step [OF c, of 3 "[]"] e l3 ad by (simp only: fst_conv snd_conv)
  have l2': "wallets_loop world0 fetch_evm net_evm ?thr 3 [wallet_b, wallet_c] =
    wallets_loop world0 fetch_evm net_evm ?thr 3 [wallet_c]"
    by (rule wallets_loop_skip [OF b])
  show ?thesis
    unfolding world0_step [OF a, of 1 "[wallet_b, wallet_c]"] e l2' l2 ad
    by (simp only: fst_conv snd_conv)
qed

lemma network_body_evm:
  assumes "big_Float_SetString W (Threshold nc) = Some thr" and "Type nc = ''evm''"
    and "rpc_DialContext W t (RPC nc) = None"
  shows "network_body W t nc =
    ([Print (NetworkLine (Name nc)), Print (TableHeader (Coin nc)), Print Rule, Dial (RPC nc)]
       @ fst (wallets_loop W fetch_evm nc thr (t + 1) (Wallets nc)) @ [Print BlankLines],
     snd (wallets_loop W fetch_evm nc thr (t + 1) (Wallets nc)))"
  using assms by (simp add: network_body_def Let_def case_prod_unfold)

lemma world0_network:
  "network_body world0 0 net_evm =
   ([Print (NetworkLine ''Ethereum''), Print (TableHeader ''ETH''), Print Rule, Dial ''https://rpc'',
     Fetch wallet_a, Print (Row ''0xaaa'' ''float'' ''int'' ''float''), Compare wallet_a True,
     Post ''https://discord/webhook'' ''{json}'',
     Fetch wallet_c, Print (Row ''0xccc'' ''float'' ''int'' ''float''), Compare wallet_c True,
     Post ''https://discord/webhook'' ''{json}'', Print BlankLines], 5)"
proof -
  have thr: "big_Float_SetString world0 (Threshold net_evm) =
      Some \<lparr>fprec = 64, fmant = 9223372036854775808, fexp = - 63\<rparr>"
    by (simp add: world0_def net_evm_def threshold_one)
  have ws: "Wallets net_evm = [wallet_a, wallet_b, wallet_c]" by (simp add: net_evm_def)
  have ty: "Type net_evm = ''evm''" by (simp add: net_evm_def)
  have dial: "rpc_DialContext world0 0 (RPC net_evm) = None" by (simp add: world0_def)
  have nm: "Name net_evm = ''Ethereum''" "Coin net_evm = ''ETH''" "RPC net_evm = ''https://rpc''"
    by (simp_all add: net_evm_def)
  have e: "(0::nat) + 1 = 1" by simp
  show ?thesis
    unfolding network_body_evm [OF thr ty dial] ws e world0_loop nm
    by (simp only: fst_conv snd_conv append.simps)
qed

lemma world0_main:
  "main world0 = Completed
    [Print (NetworkLine ''Ethereum''), Print (TableHeader ''ETH''), Print Rule, Dial ''https://rpc'',
     Fetch wallet_a, Print (Row ''0xaaa'' ''float'' ''int'' ''float''), Compare wallet_a True,
     Post ''https://discord/webhook'' ''{json}'',
     Fetch wallet_c, Print (Row ''0xccc'' ''float'' ''int'' ''float''), Compare wallet_c True,
     Post ''https://discord/webhook'' ''{json}'', Print BlankLines]"
proof -
  have "os_ReadFile world0 filePath = Inr ''config''" by (simp add: world0_def)
  moreover have "Unmarshal_ChainConfig world0 ''config'' = Inr \<lparr>Chains = [net_evm]\<rparr>"
    by (simp add: world0_def)
  moreover have "networks_loop world0 0 [net_evm] = network_body world0 0 net_evm"
    by (simp add: case_prod_unfold)
  ultimately show ?thesis by (simp add: main_def world0_network)
qed

section \<open>Evaluation at concrete inputs\<close>

lemma tenth: "toDecimalUnit 1 1 = \<lparr>fprec = 64, fmant = 14757395258967641293, fexp = - 67\<rparr>"
  apply (simp add: toDecimalUnit_def Float_SetInt_def)
  apply (simp add: Float_Quo_def)
  apply (simp add: round_quo_def quo_exp_def scaled_num_def scaled_den_def)
  apply (simp add: round_even_def)
  done

lemma balance_2_64:
  "toDecimalUnit 18446744073709551616 0 = \<lparr>fprec = 65, fmant = 18446744073709551616, fexp = 0\<rparr>"
  apply (simp add: toDecimalUnit_def Float_SetInt_def)
  apply (simp add: Float_Quo_def)
  apply (simp add: round_quo_def quo_exp_def scaled_num_def scaled_den_def)
  apply (simp add: round_even_def)
  done

section \<open>The threshold literal\<close>

lemma scan_mantissa_nonneg:
  "0 \<le> acc \<Longrightarrow> 0 \<le> fst (scan_mantissa s acc n dp fr)"
  by (induction s arbitrary: acc n dp fr) simp_all

lemma scan_decimal_nonneg: "scan_decimal s = Some (neg, m, fr) \<Longrightarrow> 0 \<le> m"
proof -
  assume a: "scan_decimal s = Some (neg, m, fr)"
  then obtain neg' rest where s: "scanSign s = Some (neg', rest)"
    by (auto simp add: scan_decimal_def split: option.splits)
  have "0 \<le> fst (scan_mantissa rest 0 0 False 0)" by (rule scan_mantissa_nonneg) simp
  with a s show ?thesis
    by (auto simp add: scan_decimal_def split: prod.splits if_splits)
qed

lemma Float_SetString_prec: "Float_SetString s = Some thr \<Longrightarrow> fprec thr = 64"
  by (auto simp add: Float_SetString_def split: option.splits prod.splits if_splits)

lemma Float_SetString_exact:
  assumes thr: "Float_SetString s = Some thr" and T: "decimal_value s = Some T"
    and rep: "representable 64 T"
  shows "valueF thr = T"
proof -
  from T obtain neg m fr where sd: "scan_decimal s = Some (neg, m, fr)"
    and Tv: "T = (if neg then - 1 else 1) * of_int m / 10 ^ fr"
    by (auto simp add: decimal_value_def split: option.splits)
  have m0: "0 \<le> m" using sd by (rule scan_decimal_nonneg)
  show ?thesis
  proof (cases "m = 0")
    case True
    then show ?thesis using thr sd Tv by (auto simp add: Float_SetString_def valueF_def)
  next
    case False
    then have a: "0 < m" using m0 by simp
    have b: "(0::int) < 10 ^ fr" by simp
    have absT: "\<bar>T\<bar> = of_int m / of_int (10 ^ fr)"
      using a by (simp add: Tv abs_mult)
    from rep obtain M E where ME: "\<bar>T\<bar> = of_int M * 2 powi E" and M: "M < 2 ^ 64"
      by (auto simp add: representable_def)
    have r: "(of_int m :: rat) / of_int (10 ^ fr) = of_int M * 2 powi E"
      using ME absT by simp
    have q: "quo_value (round_quo 64 m (10 ^ fr)) = of_int m / of_int (10 ^ fr)"
      using a b _ r M by (rule round_quo_exact) simp
    obtain qm qe where rq: "round_quo 64 m (10 ^ fr) = (qm, qe)"
      by (cases "round_quo 64 m (10 ^ fr)")
    have "thr = \<lparr>fprec = 64, fmant = (if neg then - qm else qm), fexp = qe\<rparr>"
      using thr sd False rq by (simp add: Float_SetString_def)
    then have "valueF thr = (if neg then - 1 else 1) * quo_value (round_quo 64 m (10 ^ fr))"
      by (simp add: valueF_def quo_value_def rq)
    then show ?thesis by (simp add: q Tv)
  qed
qed

lemma Float_SetString_error:
  assumes thr: "Float_SetString s = Some thr" and T: "decimal_value s = Some T"
  shows "\<bar>valueF thr - T\<bar> \<le> \<bar>T\<bar> / 2 ^ 64"
proof -
  from T obtain neg m fr where sd: "scan_decimal s = Some (neg, m, fr)"
    and Tv: "T = (if neg then - 1 else 1) * of_int m / 10 ^ fr"
    by (auto simp add: decimal_value_def split: option.splits)
  have m0: "0 \<le> m" using sd by (rule scan_decimal_nonneg)
  show ?thesis
  proof (cases "m = 0")
    case True
    then show ?thesis using thr sd Tv by (auto simp add: Float_SetString_def valueF_def)
  next
    case False
    then have a: "0 < m" using m0 by simp
    have b: "(0::int) < 10 ^ fr" by simp
    define x :: rat where "x = of_int m / of_int (10 ^ fr)"
    define v where "v = quo_value (round_quo 64 m (10 ^ fr))"
    define g :: rat where "g = (if neg then - 1 else 1)"
    have e: "\<bar>v - x\<bar> \<le> x / 2 ^ 64" unfolding v_def x_def using a b by (rule round_quo_error) simp
    obtain qm qe where rq: "round_quo 64 m (10 ^ fr) = (qm, qe)"
      by (cases "round_quo 64 m (10 ^ fr)")
    have "thr = \<lparr>fprec = 64, fmant = (if neg then - qm else qm), fexp = qe\<rparr>"
      using thr sd False rq by (simp add: Float_SetString_def)
    then have val: "valueF thr = g * v"
      by (simp add: valueF_def quo_value_def rq v_def g_def)
    have Tx: "T = g * x" by (simp add: Tv x_def g_def)
    have ga: "\<bar>g\<bar> = 1" by (simp add: g_def)
    have xpos: "0 \<le> x" using a by (simp add: x_def)
    have "\<bar>valueF thr - T\<bar> = \<bar>g * (v - x)\<bar>" by (simp add: val Tx algebra_simps)
    also have "\<dots> = \<bar>v - x\<bar>" by (simp add: abs_mult ga)
    finally show ?thesis using e xpos by (simp add: Tx abs_mult ga)
  qed
qed

lemma decimal_one: "decimal_value ''1.0'' = Some 1"
  by (simp add: decimal_value_def scan_decimal_def)

lemma representable_one: "representable 64 1"
proof -
  have "\<bar>1::rat\<bar> = of_int 1 * 2 powi 0 \<and> (1::int) < 2 ^ 64" by simp
  then show ?thesis unfolding representable_def by blast
qed

lemma threshold_tenth:
  "Float_SetString ''0.1'' = Some \<lparr>fprec = 64, fmant = 14757395258967641293, fexp = - 67\<rparr>"
  apply (simp add: Float_SetString_def scan_decimal_def)
  apply (simp add: round_quo_def quo_exp_def scaled_num_def scaled_den_def)
  apply (simp add: round_even_def)
  done

lemma decimal_tenth: "decimal_value ''0.1'' = Some (1 / 10)"
  by (simp add: decimal_value_def scan_decimal_def)

lemma fraction_digits_examples: "fraction_digits ''1.0'' \<le> 55" "fraction_digits ''0.1'' \<le> 55"
  by (simp_all add: fraction_digits_def scan_decimal_def)

lemma threshold_2_64_1:
  "Float_SetString ''18446744073709551617'' = Some \<lparr>fprec = 64, fmant = 9223372036854775808, fexp = 1\<rparr>"
  apply (simp add: Float_SetString_def scan_decimal_def)
  apply (simp add: round_quo_def quo_exp_def scaled_num_def scaled_den_def)
  apply (simp add: round_even_def)
  done

lemma threshold_100_1:
  "Float_SetString ''100.1'' = Some \<lparr>fprec = 64, fmant = 14425930326393172787, fexp = - 57\<rparr>"
  apply (simp add: Float_SetString_def scan_decimal_def)
  apply (simp add: round_quo_def quo_exp_def scaled_num_def scaled_den_def)
  apply (simp add: round_even_def)
  done

section \<open>Values of digit strings\<close>

lemma integer_value_prefix: "signed_digits b s \<Longrightarrow> prefix_value b s = integer_value b s"
  by (simp add: signed_digits_def is_digits_def prefix_value_def integer_value_def takeWhile_all Let_def)

lemma integer_value_digits: "is_digits b ds \<Longrightarrow> b \<le> 36 \<Longrightarrow> integer_value b ds = digits_value b ds"
  by (simp add: integer_value_def is_digits_no_sign)

lemma uatom_digits: "is_digits 10 ''2500000''"
  by (simp add: is_digits_def)

lemma uatom_value: "digits_value 10 ''2500000'' = 2500000"
  by (simp add: digits_value_def)

lemma ascii_UATOM: "ascii ''UATOM''" "ascii ''uosmo''" "ascii ''uatom''"
  by (simp_all add: ascii_def)

lemma same_case_simps:
  "same_ignoring_case ''uatom'' ''UATOM''" "\<not> same_ignoring_case ''uatom'' ''uosmo''"
  "same_ignoring_case ''uatom'' ''uatom''"
  by code_simp+

lemma bad_amount: "\<not> signed_digits 10 ''12abc''" "prefix_value 10 ''12abc'' = 12"
  by (simp_all add: signed_digits_def is_digits_def prefix_value_def digits_value_def)


section \<open>The run does not depend on the webhook\<close>

lemma sendAlert_post:
  "sendAlert (W\<lparr>http_Post := p\<rparr>) t n a b th c e = sendAlert W t n a b th c e"
  by (simp add: sendAlert_def sendDiscordAlert_def Let_def split: sum.split http_post.split)

lemma fetchers_post:
  "fetch_evm (W\<lparr>http_Post := p\<rparr>) t nc w = fetch_evm W t nc w"
  "fetch_icon (W\<lparr>http_Post := p\<rparr>) t nc w = fetch_icon W t nc w"
  "fetch_cosmos (W\<lparr>http_Post := p\<rparr>) t nc w = fetch_cosmos W t nc w"
  by (simp_all add: fetch_evm_def fetch_icon_def fetch_cosmos_def getETHBalance_def
      getICXBalance_def getCosmosBalance_def Let_def split: sum.split http_get.split)

lemma alert_step_post:
  "alert_step (W\<lparr>http_Post := p\<rparr>) nc thr t w balance = alert_step W nc thr t w balance"
  by (simp add: alert_step_def sendAlert_post)

lemma wallets_loop_post:
  assumes "\<And>t w. fetch (W\<lparr>http_Post := p\<rparr>) t nc w = fetch W t nc w"
  shows "wallets_loop (W\<lparr>http_Post := p\<rparr>) fetch nc thr t ws = wallets_loop W fetch nc thr t ws"
proof (induction ws arbitrary: t)
  case Nil
  then show ?case by simp
next
  case (Cons w ws)
  show ?case
  proof (cases "Alert w")
    case False
    then show ?thesis using Cons.IH by simp
  next
    case True
    obtain ls r where f: "fetch W t nc w = (ls, r)" by (cases "fetch W t nc w")
    then have f': "fetch (W\<lparr>http_Post := p\<rparr>) t nc w = (ls, r)" by (simp add: assms)
    show ?thesis
    proof (cases r)
      case (Inl err)
      then show ?thesis using True f f' Cons.IH
        by (simp add: wallets_loop_error del: wallets_loop.simps)
    next
      case (Inr balance)
      then show ?thesis using True f f' Cons.IH
        by (simp add: wallets_loop_ok alert_step_post del: wallets_loop.simps)
    qed
  qed
qed

lemma network_body_post: "network_body (W\<lparr>http_Post := p\<rparr>) t nc = network_body W t nc"
  by (simp add: network_body_def wallets_loop_post fetchers_post Let_def split: option.split)

lemma networks_loop_post: "networks_loop (W\<lparr>http_Post := p\<rparr>) t ncs = networks_loop W t ncs"
  by (induction ncs arbitrary: t) (simp_all add: network_body_post)

lemma main_post: "main (W\<lparr>http_Post := p\<rparr>) = main W"
  by (simp add: main_def networks_loop_post split: sum.split)

lemma main_Fatal_iff:
  "main W = Fatal e \<longleftrightarrow>
     os_ReadFile W filePath = Inl e \<or>
     (\<exists>content. os_ReadFile W filePath = Inr content \<and> Unmarshal_ChainConfig W content = Inl e)"
  by (auto simp add: main_def split: sum.splits)

lemma main_Completed_iff:
  "(\<exists>evs. main W = Completed evs) \<longleftrightarrow>
     (\<exists>content cfg. os_ReadFile W filePath = Inr content \<and> Unmarshal_ChainConfig W content = Inr cfg)"
  by (auto simp add: main_def split: sum.splits)

section \<open>Runs in the other worlds\<close>

lemma world0_setup: "setup_ok world0 0 net_evm"
  by (simp add: setup_ok_def world0_def net_evm_def threshold_one)

lemma world0_fetches: "fetch_succeeds world0 net_evm"
proof -
  have "fetcher_of net_evm = fetch_evm" by (simp add: fetcher_of_def net_evm_def)
  then show ?thesis by (simp add: fetch_succeeds_def world0_fetch)
qed

lemma net_evm_alerts: "filter Alert (Wallets net_evm) = [wallet_a, wallet_c]"
  by (simp add: net_evm_def wallet_a_def wallet_b_def wallet_c_def)

lemma world_down_fetch: "fetch_evm world_down t net_evm w = ([], Inl (External ''timeout''))"
  by (simp add: fetch_evm_def getETHBalance_def world_down_def)

lemma world_down_loop:
  "wallets_loop world_down fetch_evm net_evm thr 1 [wallet_a, wallet_b, wallet_c] =
   ([Fetch wallet_a, Print (ErrorLine (External ''timeout'')),
     Fetch wallet_c, Print (ErrorLine (External ''timeout''))], 3)"
proof -
  have a: "Alert wallet_a" and b: "\<not> Alert wallet_b" and c: "Alert wallet_c"
    by (simp_all add: wallet_a_def wallet_b_def wallet_c_def)
  have e: "(1::nat) + 1 = 2" "(2::nat) + 1 = 3" by simp_all
  have l3: "wallets_loop world_down fetch_evm net_evm thr 3 [] = ([], 3)" by simp
  have l2: "wallets_loop world_down fetch_evm net_evm thr 2 [wallet_c] =
    ([Fetch wallet_c, Print (ErrorLine (External ''timeout''))], 3)"
    unfolding wallets_loop_error [where fetch = fetch_evm and W = world_down, OF c world_down_fetch] e l3
    by (simp only: fst_conv snd_conv list.map append.simps)
  have l2': "wallets_loop world_down fetch_evm net_evm thr 2 [wallet_b, wallet_c] =
    wallets_loop world_down fetch_evm net_evm thr 2 [wallet_c]"
    by (rule wallets_loop_skip [OF b])
  show ?thesis
    unfolding wallets_loop_error [where fetch = fetch_evm and W = world_down, OF a world_down_fetch] e l2' l2
    by (simp only: fst_conv snd_conv list.map append.simps)
qed

lemma world_down_network:
  "network_body world_down 0 net_evm =
   ([Print (NetworkLine ''Ethereum''), Print (TableHeader ''ETH''), Print Rule, Dial ''https://rpc'',
     Fetch wallet_a, Print (ErrorLine (External ''timeout'')),
     Fetch wallet_c, Print (ErrorLine (External ''timeout'')), Print BlankLines], 3)"
proof -
  have thr: "big_Float_SetString world_down (Threshold net_evm) =
      Some \<lparr>fprec = 64, fmant = 9223372036854775808, fexp = - 63\<rparr>"
    by (simp add: world_down_def world0_def net_evm_def threshold_one)
  have ws: "Wallets net_evm = [wallet_a, wallet_b, wallet_c]" by (simp add: net_evm_def)
  have ty: "Type net_evm = ''evm''" by (simp add: net_evm_def)
  have dial: "rpc_DialContext world_down 0 (RPC net_evm) = None"
    by (simp add: world_down_def world0_def)
  have nm: "Name net_evm = ''Ethereum''" "Coin net_evm = ''ETH''" "RPC net_evm = ''https://rpc''"
    by (simp_all add: net_evm_def)
  have e: "(0::nat) + 1 = 1" by simp
  show ?thesis
    unfolding network_body_evm [OF thr ty dial] ws e world_down_loop nm
    by (simp only: fst_conv snd_conv append.simps)
qed

lemma world_flaky_fetch1: "fetch_evm world_flaky 1 net_evm w = ([], Inl (External ''timeout''))"
  by (simp add: fetch_evm_def getETHBalance_def world_flaky_def)

lemma world_flaky_fetch2: "fetch_evm world_flaky 2 net_evm w = ([], Inr 500000000000000000)"
  by (simp add: fetch_evm_def getETHBalance_def world_flaky_def half_hex)

lemma world_flaky_alert:
  "alert_step world_flaky net_evm \<lparr>fprec = 64, fmant = 9223372036854775808, fexp = - 63\<rparr> t w 500000000000000000
     = ([Post ''https://discord/webhook'' ''{json}''], t + 2)"
  by (simp add: alert_step_def net_evm_def half_coin half_below_one sendAlert_def
      sendDiscordAlert_def world_flaky_def world0_def)

lemma world_flaky_rest:
  "wallets_loop world_flaky fetch_evm net_evm \<lparr>fprec = 64, fmant = 9223372036854775808, fexp = - 63\<rparr> 2
     [wallet_b, wallet_c] =
   ([Fetch wallet_c, Print (Row ''0xccc'' ''float'' ''int'' ''float''), Compare wallet_c True,
     Post ''https://discord/webhook'' ''{json}''], 4)"
proof -
  let ?thr = "\<lparr>fprec = 64, fmant = 9223372036854775808, fexp = - 63\<rparr>"
  have b: "\<not> Alert wallet_b" and c: "Alert wallet_c"
    by (simp_all add: wallet_b_def wallet_c_def)
  have d: "Decimals net_evm = 18" by (simp add: net_evm_def)
  have s: "Float_String world_flaky f = ''float''" "Int_String world_flaky i = ''int''" for f i
    by (simp_all add: world_flaky_def world0_def)
  have ad: "Address wallet_c = ''0xccc''" by (simp add: wallet_c_def)
  have e: "(2::nat) + 2 = 4" by simp
  have l4: "wallets_loop world_flaky fetch_evm net_evm ?thr 4 [] = ([], 4)" by simp
  have l2: "wallets_loop world_flaky fetch_evm net_evm ?thr 2 [wallet_c] =
    ([Fetch wallet_c, Print (Row ''0xccc'' ''float'' ''int'' ''float''), Compare wallet_c True,
      Post ''https://discord/webhook'' ''{json}''], 4)"
    unfolding wallets_loop_ok [where fetch = fetch_evm and W = world_flaky, OF c world_flaky_fetch2]
      world_flaky_alert d half_coin s e l4 ad
    using half_below_one by simp
  show ?thesis unfolding wallets_loop_skip [OF b] l2 ..
qed

lemma world_flaky_network:
  "network_body world_flaky 0 net_evm =
   ([Print (NetworkLine ''Ethereum''), Print (TableHeader ''ETH''), Print Rule, Dial ''https://rpc'',
     Fetch wallet_a, Print (ErrorLine (External ''timeout'')),
     Fetch wallet_c, Print (Row ''0xccc'' ''float'' ''int'' ''float''), Compare wallet_c True,
     Post ''https://discord/webhook'' ''{json}'', Print BlankLines], 4)"
proof -
  let ?thr = "\<lparr>fprec = 64, fmant = 9223372036854775808, fexp = - 63\<rparr>"
  have a: "Alert wallet_a" by (simp add: wallet_a_def)
  have thr: "big_Float_SetString world_flaky (Threshold net_evm) = Some ?thr"
    by (simp add: world_flaky_def world0_def net_evm_def threshold_one)
  have ws: "Wallets net_evm = [wallet_a, wallet_b, wallet_c]" by (simp add: net_evm_def)
  have ty: "Type net_evm = ''evm''" by (simp add: net_evm_def)
  have dial: "rpc_DialContext world_flaky 0 (RPC net_evm) = None"
    by (simp add: world_flaky_def world0_def)
  have nm: "Name net_evm = ''Ethereum''" "Coin net_evm = ''ETH''" "RPC net_evm = ''https://rpc''"
    by (simp_all add: net_evm_def)
  have e: "(0::nat) + 1 = 1" "(1::nat) + 1 = 2" by simp_all
  have l1: "wallets_loop world_flaky fetch_evm net_evm ?thr 1 [wallet_a, wallet_b, wallet_c] =
    ([Fetch wallet_a, Print (ErrorLine (External ''timeout'')),
      Fetch wallet_c, Print (Row ''0xccc'' ''float'' ''int'' ''float''), Compare wallet_c True,
      Post ''https://discord/webhook'' ''{json}''], 4)"
    unfolding wallets_loop_error [where fetch = fetch_evm and W = world_flaky, OF a world_flaky_fetch1]
      e world_flaky_rest
    by (simp only: fst_conv snd_conv list.map append.simps)
  show ?thesis
    unfolding network_body_evm [OF thr ty dial] ws e l1 nm
    by (simp only: fst_conv snd_conv append.simps)
qed

lemma world0_post:
  "json_Marshal world0 [(''content'', world0_message)] = Inr ''{json}''"
  "http_Post world0 2 (discordWebhookURL world0) ''{json}'' = PostResponse 500"
  by (simp_all add: world0_def)

text \<open>
  A threshold of 100.1 coins of 18 decimals, and a balance one smallest unit under it:
  the two numbers are rounded to the same binary number.
\<close>

lemma balance_under_100_1:
  "toDecimalUnit 100099999999999999999 18 = \<lparr>fprec = 67, fmant = 115407442611145382296, fexp = - 60\<rparr>"
  apply (simp add: toDecimalUnit_def Float_SetInt_def)
  apply (simp add: Float_Quo_def)
  apply (simp add: round_quo_def quo_exp_def scaled_num_def scaled_den_def)
  apply (simp add: round_even_def)
  done

lemma fractional_threshold_example:
  "Float_SetString ''100.1'' = Some \<lparr>fprec = 64, fmant = 14425930326393172787, fexp = - 57\<rparr>
   \<and> decimal_value ''100.1'' = Some (1001 / 10)
   \<and> (of_int 100099999999999999999 :: rat) / 10 ^ 18 < 1001 / 10
   \<and> \<not> exceedsBalanceThreshold (toDecimalUnit 100099999999999999999 18)
        \<lparr>fprec = 64, fmant = 14425930326393172787, fexp = - 57\<rparr>"
  by (simp add: threshold_100_1 decimal_value_def scan_decimal_def balance_under_100_1
      exceedsBalanceThreshold_def Float_Cmp_def)

section \<open>The properties\<close>

subsection \<open>toDecimalUnit\<close>

text \<open>
  C1. For every balance \<open>B\<close> (of fewer than \<open>2 ^ 31\<close> bits) and every decimals count
  \<open>d\<close>: \<open>toDecimalUnit B 0\<close> is \<open>B\<close> exactly; \<open>toDecimalUnit B d\<close> times \<open>10 ^ d\<close> is
  \<open>B\<close> exactly if and only if \<open>5 ^ d\<close> divides \<open>B\<close>, that is, if and only if the
  quotient has a finite binary expansion; in every case the result differs from
  \<open>B / 10 ^ d\<close> by at most \<open>2 ^ - p\<close> of it, where \<open>p\<close> is the precision of the result, at
  least 64 bits and no fewer bits than \<open>B\<close> has.
\<close>

theorem toDecimalUnit_exactness:
  assumes "BitLen B < 2 ^ 31"
  shows "valueF (toDecimalUnit B 0) = of_int B
       \<and> (valueF (toDecimalUnit B d) * 10 ^ unat d = of_int B \<longleftrightarrow> 5 ^ unat d dvd B)
       \<and> \<bar>valueF (toDecimalUnit B d) - of_int B / 10 ^ unat d\<bar>
            \<le> \<bar>of_int B / 10 ^ unat d\<bar> / 2 ^ fprec (toDecimalUnit B d)
       \<and> 64 \<le> fprec (toDecimalUnit B d)
       \<and> BitLen B \<le> int (fprec (toDecimalUnit B d))"
proof -
  have "valueF (toDecimalUnit B 0) * 10 ^ unat (0 :: 8 word) = of_int B"
    unfolding toDecimalUnit_product_iff by simp
  then have "valueF (toDecimalUnit B 0) = of_int B" by simp
  then show ?thesis
    using toDecimalUnit_error [of B d]
    by (simp add: toDecimalUnit_product_iff toDecimalUnit_prec_ge)
qed

text \<open>
  An instance: half a coin of 18 decimals.
\<close>

theorem toDecimalUnit_exactness_witness:
  "BitLen 500000000000000000 < 2 ^ 31
   \<and> valueF (toDecimalUnit 500000000000000000 0) = 500000000000000000
   \<and> valueF (toDecimalUnit 500000000000000000 18) * 10 ^ 18 = 500000000000000000
   \<and> valueF (toDecimalUnit 500000000000000000 18) = 1 / 2
   \<and> 64 \<le> fprec (toDecimalUnit 500000000000000000 18)"
proof -
  have h: "BitLen 500000000000000000 < 2 ^ 31" by simp
  have d: "(5::int) ^ unat (18 :: 8 word) dvd 500000000000000000" by simp
  have v: "valueF (toDecimalUnit 500000000000000000 18) = 1 / 2"
    by (simp add: half_coin valueF_def power_int_minus)
  from toDecimalUnit_exactness [OF h, of 18]
  have "valueF (toDecimalUnit 500000000000000000 0) = 500000000000000000"
    and "valueF (toDecimalUnit 500000000000000000 18) * 10 ^ unat (18 :: 8 word) = of_int 500000000000000000"
    and "64 \<le> fprec (toDecimalUnit 500000000000000000 18)"
    using d by simp_all
  then show ?thesis using h v by simp
qed

text \<open>
  The product is not \<open>B\<close> for every \<open>B\<close> and \<open>d\<close>: one smallest unit of a coin of one
  decimal becomes the 64-bit binary number next to one tenth, and ten times that number
  is not 1.
\<close>

theorem toDecimalUnit_tenth_inexact:
  "valueF (toDecimalUnit 1 1) * 10 ^ unat (1 :: 8 word) \<noteq> of_int 1"
  by (simp add: tenth valueF_def power_int_minus)


subsection \<open>The threshold decision\<close>

text \<open>
  C2. The threshold is parsed from its string (a decimal literal of at most 55
  fraction digits) into a binary number of 64 mantissa bits, and the comparison is the
  exact comparison of that number with the converted balance. With \<open>x = B / 10 ^ d\<close> and
  \<open>T\<close> the threshold as written: when \<open>x\<close> is under \<open>T\<close> by more than
  \<open>(\<bar>x\<bar> + \<bar>T\<bar>) / 2 ^ 64\<close> the balance is found under the threshold, and when \<open>x\<close> is
  over \<open>T\<close> by that much or more it is found not to be. When \<open>5 ^ d\<close> divides \<open>B\<close> and
  a 64-bit mantissa holds \<open>T\<close>, neither number is rounded, and the decision is the exact
  comparison of \<open>x\<close> with \<open>T\<close>.
\<close>

theorem threshold_decision:
  assumes "BitLen B < 2 ^ 31"
    and "Float_SetString s = Some threshold" and "decimal_value s = Some T"
    and "fraction_digits s \<le> 55"
  shows "fprec threshold = 64
       \<and> (exceedsBalanceThreshold (toDecimalUnit B d) threshold \<longleftrightarrow>
            valueF (toDecimalUnit B d) < valueF threshold)
       \<and> ((\<bar>of_int B / 10 ^ unat d\<bar> + \<bar>T\<bar>) / 2 ^ 64 < T - of_int B / 10 ^ unat d \<longrightarrow>
            exceedsBalanceThreshold (toDecimalUnit B d) threshold)
       \<and> ((\<bar>of_int B / 10 ^ unat d\<bar> + \<bar>T\<bar>) / 2 ^ 64 \<le> of_int B / 10 ^ unat d - T \<longrightarrow>
            \<not> exceedsBalanceThreshold (toDecimalUnit B d) threshold)
       \<and> (5 ^ unat d dvd B \<and> representable 64 T \<longrightarrow>
            (exceedsBalanceThreshold (toDecimalUnit B d) threshold \<longleftrightarrow>
             of_int B / 10 ^ unat d < T))"
proof -
  define x :: rat where "x = of_int B / 10 ^ unat d"
  define v where "v = valueF (toDecimalUnit B d)"
  define w where "w = valueF threshold"
  have c: "exceedsBalanceThreshold (toDecimalUnit B d) threshold \<longleftrightarrow> v < w"
    by (simp add: exceedsBalanceThreshold_def Float_Cmp_less v_def w_def)
  have ev: "\<bar>v - x\<bar> \<le> \<bar>x\<bar> / 2 ^ 64"
    unfolding v_def x_def by (rule toDecimalUnit_error64)
  have ew: "\<bar>w - T\<bar> \<le> \<bar>T\<bar> / 2 ^ 64"
    unfolding w_def using assms(2,3) by (rule Float_SetString_error)
  have sum: "(\<bar>x\<bar> + \<bar>T\<bar>) / 2 ^ 64 = \<bar>x\<bar> / 2 ^ 64 + \<bar>T\<bar> / 2 ^ 64"
    by (simp add: add_divide_distrib)
  have below: "v < w" if "(\<bar>x\<bar> + \<bar>T\<bar>) / 2 ^ 64 < T - x"
    using that ev ew unfolding sum by linarith
  have above: "\<not> v < w" if "(\<bar>x\<bar> + \<bar>T\<bar>) / 2 ^ 64 \<le> x - T"
    using that ev ew unfolding sum by linarith
  have exact: "v < w \<longleftrightarrow> x < T" if "5 ^ unat d dvd B" "representable 64 T"
  proof -
    have "w = T" unfolding w_def using assms(2,3) that(2) by (rule Float_SetString_exact)
    moreover have "v = x" unfolding v_def x_def using that(1) by (rule toDecimalUnit_exact)
    ultimately show ?thesis by simp
  qed
  show ?thesis
    using c below above exact Float_SetString_prec [OF assms(2)]
    unfolding x_def [symmetric] v_def [symmetric] w_def [symmetric] by blast
qed

text \<open>
  Two instances, from the specification: half a coin of 18 decimals is under the
  threshold 1.0 and is not under the threshold 0.1.
\<close>

theorem threshold_decision_witness:
  "BitLen 500000000000000000 < 2 ^ 31
   \<and> Float_SetString ''1.0'' = Some \<lparr>fprec = 64, fmant = 9223372036854775808, fexp = - 63\<rparr>
   \<and> decimal_value ''1.0'' = Some 1 \<and> fraction_digits ''1.0'' \<le> 55
   \<and> Float_SetString ''0.1'' = Some \<lparr>fprec = 64, fmant = 14757395258967641293, fexp = - 67\<rparr>
   \<and> decimal_value ''0.1'' = Some (1 / 10) \<and> fraction_digits ''0.1'' \<le> 55
   \<and> 5 ^ unat (18 :: 8 word) dvd (500000000000000000 :: int) \<and> representable 64 1
   \<and> exceedsBalanceThreshold (toDecimalUnit 500000000000000000 18)
        \<lparr>fprec = 64, fmant = 9223372036854775808, fexp = - 63\<rparr>
   \<and> \<not> exceedsBalanceThreshold (toDecimalUnit 500000000000000000 18)
        \<lparr>fprec = 64, fmant = 14757395258967641293, fexp = - 67\<rparr>"
proof -
  have h: "BitLen 500000000000000000 < 2 ^ 31" by simp
  have d: "(5::int) ^ unat (18 :: 8 word) dvd 500000000000000000" by simp
  have x: "(of_int 500000000000000000 :: rat) / 10 ^ unat (18 :: 8 word) = 1 / 2" by simp
  note one = threshold_decision [OF h threshold_one decimal_one fraction_digits_examples(1), of 18]
  note tenth = threshold_decision [OF h threshold_tenth decimal_tenth fraction_digits_examples(2), of 18]
  have a: "exceedsBalanceThreshold (toDecimalUnit 500000000000000000 18)
        \<lparr>fprec = 64, fmant = 9223372036854775808, fexp = - 63\<rparr>"
  proof -
    from one d representable_one
    have "exceedsBalanceThreshold (toDecimalUnit 500000000000000000 18)
        \<lparr>fprec = 64, fmant = 9223372036854775808, fexp = - 63\<rparr> \<longleftrightarrow>
      (of_int 500000000000000000 :: rat) / 10 ^ unat (18 :: 8 word) < 1"
      by blast
    then show ?thesis unfolding x by simp
  qed
  have b: "\<not> exceedsBalanceThreshold (toDecimalUnit 500000000000000000 18)
        \<lparr>fprec = 64, fmant = 14757395258967641293, fexp = - 67\<rparr>"
  proof -
    have "(\<bar>1 / 2 :: rat\<bar> + \<bar>1 / 10\<bar>) / 2 ^ 64 \<le> 1 / 2 - 1 / 10" by simp
    with tenth show ?thesis unfolding x by blast
  qed
  show ?thesis
    using h d a b threshold_one decimal_one threshold_tenth decimal_tenth
      fraction_digits_examples representable_one by simp
qed

text \<open>
  The decision does not agree with the exact comparison for every balance and
  threshold. The threshold \<open>2 ^ 64 + 1\<close> needs 65 mantissa bits and is rounded to
  \<open>2 ^ 64\<close>, a tie that goes to the even mantissa; the balance \<open>2 ^ 64\<close> with no decimals
  is under the threshold as written, and the program finds it not to be.
\<close>

theorem threshold_rounding_counterexample:
  "Float_SetString ''18446744073709551617'' = Some \<lparr>fprec = 64, fmant = 9223372036854775808, fexp = 1\<rparr>
   \<and> decimal_value ''18446744073709551617'' = Some 18446744073709551617
   \<and> (of_int 18446744073709551616 :: rat) / 10 ^ unat (0 :: 8 word) < 18446744073709551617
   \<and> \<not> exceedsBalanceThreshold (toDecimalUnit 18446744073709551616 0)
        \<lparr>fprec = 64, fmant = 9223372036854775808, fexp = 1\<rparr>"
proof -
  have "decimal_value ''18446744073709551617'' = Some 18446744073709551617"
    by (simp add: decimal_value_def scan_decimal_def)
  moreover have "\<not> exceedsBalanceThreshold \<lparr>fprec = 65, fmant = 18446744073709551616, fexp = 0\<rparr>
        \<lparr>fprec = 64, fmant = 9223372036854775808, fexp = 1\<rparr>"
    by (simp add: exceedsBalanceThreshold_def Float_Cmp_def)
  ultimately show ?thesis by (simp add: threshold_2_64_1 balance_2_64)
qed

subsection \<open>exceedsBalanceThreshold\<close>

text \<open>
  C3. For every two values, \<open>exceedsBalanceThreshold balance threshold\<close> is true exactly
  when the balance is strictly less than the threshold; it is never true of two equal
  values, whatever their precisions and representations.
\<close>

theorem exceedsBalanceThreshold_strict:
  "(exceedsBalanceThreshold balance threshold \<longleftrightarrow> valueF balance < valueF threshold)
   \<and> \<not> (exceedsBalanceThreshold balance threshold \<and> valueF balance = valueF threshold)"
proof -
  have "exceedsBalanceThreshold balance threshold \<longleftrightarrow> valueF balance < valueF threshold"
    by (simp add: exceedsBalanceThreshold_def Float_Cmp_less)
  then show ?thesis by auto
qed

subsection \<open>getCosmosBalance\<close>

text \<open>
  C4. For a response that was fetched and decoded, and ASCII denoms: when no entry
  has the denom of the query, up to the case of letters, the result is the error
  \<open>NoBalanceFound\<close>, not a balance; otherwise the result is the amount of the first
  entry that has it, read as a base-10 integer, when that amount is a digit string, with
  or without a sign.
\<close>

theorem getCosmosBalance_denom_match:
  assumes "http_Get W t (rpc @ ''/cosmos/bank/v1beta1/balances/'' @ address) = GetBody (Inr body)"
    and "Unmarshal_CosmosBalance W body = Inr cb"
    and "ascii denom" and "\<forall>c \<in> set (Balances cb). ascii (Denom c)"
  shows "(find (\<lambda>c. same_ignoring_case (Denom c) denom) (Balances cb) = None \<longrightarrow>
            snd (getCosmosBalance W t rpc address denom) = Inl (NoBalanceFound denom))
       \<and> (\<forall>c. find (\<lambda>c. same_ignoring_case (Denom c) denom) (Balances cb) = Some c \<and>
              signed_digits 10 (Amount c) \<longrightarrow>
            snd (getCosmosBalance W t rpc address denom) = Inr (integer_value 10 (Amount c)))
       \<and> (\<forall>c. find (\<lambda>c. same_ignoring_case (Denom c) denom) (Balances cb) = Some c \<and>
              is_digits 10 (Amount c) \<longrightarrow>
            snd (getCosmosBalance W t rpc address denom) = Inr (digits_value 10 (Amount c)))"
proof -
  have g: "snd (getCosmosBalance W t rpc address denom) = find_balance (Balances cb) denom"
    using assms(1,2) by (simp add: getCosmosBalance_body)
  show ?thesis
    unfolding g find_balance_eq
    by (auto simp add: integer_value_prefix prefix_value_digits)
qed

text \<open>
  An instance, from the specification: the response holds 2500000 uatom; the query
  UATOM finds it, the query uosmo gets the error.
\<close>

theorem getCosmosBalance_denom_match_witness:
  "http_Get world0 0 (''https://lcd'' @ ''/cosmos/bank/v1beta1/balances/'' @ ''cosmos1'') = GetBody (Inr uatom_body)
   \<and> Unmarshal_CosmosBalance world0 uatom_body = Inr uatom_response
   \<and> snd (getCosmosBalance world0 0 ''https://lcd'' ''cosmos1'' ''UATOM'') = Inr 2500000
   \<and> snd (getCosmosBalance world0 0 ''https://lcd'' ''cosmos1'' ''uosmo'') = Inl (NoBalanceFound ''uosmo'')"
proof -
  have g: "http_Get world0 0 (''https://lcd'' @ ''/cosmos/bank/v1beta1/balances/'' @ ''cosmos1'') = GetBody (Inr uatom_body)"
    by (simp add: world0_def)
  have u: "Unmarshal_CosmosBalance world0 uatom_body = Inr uatom_response"
    by (simp add: world0_def)
  have a: "\<forall>c \<in> set (Balances uatom_response). ascii (Denom c)"
    by (simp add: uatom_response_def ascii_UATOM)
  have f1: "find (\<lambda>c. same_ignoring_case (Denom c) ''UATOM'') (Balances uatom_response) =
      Some \<lparr>Denom = ''uatom'', Amount = ''2500000''\<rparr>"
    by (simp add: uatom_response_def same_case_simps)
  have f2: "find (\<lambda>c. same_ignoring_case (Denom c) ''uosmo'') (Balances uatom_response) = None"
    by (simp add: uatom_response_def same_case_simps)
  from getCosmosBalance_denom_match [OF g u ascii_UATOM(1) a] f1 uatom_digits
  have r1: "snd (getCosmosBalance world0 0 ''https://lcd'' ''cosmos1'' ''UATOM'') = Inr 2500000"
    by (simp add: uatom_value)
  from getCosmosBalance_denom_match [OF g u ascii_UATOM(2) a] f2
  have r2: "snd (getCosmosBalance world0 0 ''https://lcd'' ''cosmos1'' ''uosmo'') = Inl (NoBalanceFound ''uosmo'')"
    by simp
  show ?thesis using g u r1 r2 by simp
qed


subsection \<open>getETHBalance\<close>





subsection \<open>The wallet loop and the network loop\<close>

text \<open>
  C6. A wallet with its alert switched off is skipped entirely: the loop does nothing
  for it. A wallet with its alert switched on is fetched and, when the fetch succeeds,
  shown in a row and compared with the threshold. In the run of a network, the wallets
  fetched are alert-enabled wallets of the network, in their order; the wallets compared
  are among the wallets fetched, and are the wallets shown in a row. When the set-up of
  the network succeeds, the wallets fetched are exactly the alert-enabled ones; when
  moreover every fetch succeeds, the wallets compared are exactly the alert-enabled
  ones.
\<close>

theorem alert_flag_gates_evaluation:
  "(\<not> Alert w \<longrightarrow>
      wallets_loop W fetch nc thr t (w # ws) = wallets_loop W fetch nc thr t ws)
   \<and> (Alert w \<and> fetch W t nc w = (ls, Inr balance) \<longrightarrow>
      wallets_loop W fetch nc thr t (w # ws) =
        (Fetch w # map Print ls
           @ Print (Row (Address w) (Float_String W (toDecimalUnit balance (Decimals nc)))
                      (Int_String W balance) (Float_String W thr))
           # Compare w (exceedsBalanceThreshold (toDecimalUnit balance (Decimals nc)) thr)
           # fst (alert_step W nc thr t w balance)
           @ fst (wallets_loop W fetch nc thr (snd (alert_step W nc thr t w balance)) ws),
         snd (wallets_loop W fetch nc thr (snd (alert_step W nc thr t w balance)) ws)))
   \<and> subseq (fetched (fst (network_body W t nc))) (filter Alert (Wallets nc))
   \<and> subseq (compared (fst (network_body W t nc))) (fetched (fst (network_body W t nc)))
   \<and> displayed (fst (network_body W t nc)) = map Address (compared (fst (network_body W t nc)))
   \<and> (setup_ok W t nc \<longrightarrow> fetched (fst (network_body W t nc)) = filter Alert (Wallets nc))
   \<and> (setup_ok W t nc \<and> fetch_succeeds W nc \<longrightarrow>
        compared (fst (network_body W t nc)) = filter Alert (Wallets nc))"
proof -
  have step: "Alert w \<and> fetch W t nc w = (ls, Inr balance) \<longrightarrow>
      wallets_loop W fetch nc thr t (w # ws) =
        (Fetch w # map Print ls
           @ Print (Row (Address w) (Float_String W (toDecimalUnit balance (Decimals nc)))
                      (Int_String W balance) (Float_String W thr))
           # Compare w (exceedsBalanceThreshold (toDecimalUnit balance (Decimals nc)) thr)
           # fst (alert_step W nc thr t w balance)
           @ fst (wallets_loop W fetch nc thr (snd (alert_step W nc thr t w balance)) ws),
         snd (wallets_loop W fetch nc thr (snd (alert_step W nc thr t w balance)) ws))"
    using wallets_loop_ok [of w fetch W t nc ls balance thr ws] by blast
  have skip: "\<not> Alert w \<longrightarrow>
      wallets_loop W fetch nc thr t (w # ws) = wallets_loop W fetch nc thr t ws"
    by simp
  have net: "subseq (fetched (fst (network_body W t nc))) (filter Alert (Wallets nc))
   \<and> subseq (compared (fst (network_body W t nc))) (fetched (fst (network_body W t nc)))
   \<and> displayed (fst (network_body W t nc)) = map Address (compared (fst (network_body W t nc)))
   \<and> (setup_ok W t nc \<longrightarrow> fetched (fst (network_body W t nc)) = filter Alert (Wallets nc))
   \<and> (setup_ok W t nc \<and> fetch_succeeds W nc \<longrightarrow>
        compared (fst (network_body W t nc)) = filter Alert (Wallets nc))"
  proof (cases "setup_ok W t nc")
    case False
    then show ?thesis using network_body_not_ok [OF False] by simp
  next
    case True
    from network_body_ok [OF True] obtain pre thr' t0 where
      evs: "fst (network_body W t nc) =
        pre @ fst (wallets_loop W (fetcher_of nc) nc thr' t0 (Wallets nc)) @ [Print BlankLines]"
      and pre: "fetched pre = []" "compared pre = []" "displayed pre = []"
      by blast
    let ?loop = "fst (wallets_loop W (fetcher_of nc) nc thr' t0 (Wallets nc))"
    have f: "fetched (fst (network_body W t nc)) = filter Alert (Wallets nc)"
      by (simp add: evs pre wallets_loop_fetched)
    have c: "compared (fst (network_body W t nc)) = compared ?loop"
      by (simp add: evs pre)
    have d: "displayed (fst (network_body W t nc)) = displayed ?loop"
      by (simp add: evs pre)
    have s: "subseq (compared ?loop) (filter Alert (Wallets nc))"
      by (rule wallets_loop_compared_subseq)
    have dc: "displayed ?loop = map Address (compared ?loop)"
      by (rule wallets_loop_displayed) (rule fetcher_of_no_rows)
    have a: "fetch_succeeds W nc \<Longrightarrow> compared ?loop = filter Alert (Wallets nc)"
      by (rule wallets_loop_compared_all) (simp add: fetch_succeeds_def)
    show ?thesis using f c d s dc a by simp
  qed
  show ?thesis using skip step net by blast
qed

text \<open>
  An instance, from the specification: of three wallets, one with its alert switched
  off, two are compared with the threshold.
\<close>

theorem alert_flag_gates_evaluation_witness:
  "setup_ok world0 0 net_evm \<and> fetch_succeeds world0 net_evm
   \<and> length (Wallets net_evm) = 3
   \<and> fetched (fst (network_body world0 0 net_evm)) = [wallet_a, wallet_c]
   \<and> compared (fst (network_body world0 0 net_evm)) = [wallet_a, wallet_c]
   \<and> displayed (fst (network_body world0 0 net_evm)) = [''0xaaa'', ''0xccc'']
   \<and> length (compared (fst (network_body world0 0 net_evm))) = 2"
proof -
  note g = alert_flag_gates_evaluation [where W = world0 and t = 0 and nc = net_evm]
  from g have "setup_ok world0 0 net_evm \<and> fetch_succeeds world0 net_evm \<longrightarrow>
      compared (fst (network_body world0 0 net_evm)) = filter Alert (Wallets net_evm)"
    by blast
  then have c: "compared (fst (network_body world0 0 net_evm)) = [wallet_a, wallet_c]"
    using world0_setup world0_fetches by (simp add: net_evm_alerts)
  from g have "setup_ok world0 0 net_evm \<longrightarrow>
      fetched (fst (network_body world0 0 net_evm)) = filter Alert (Wallets net_evm)"
    by blast
  then have f: "fetched (fst (network_body world0 0 net_evm)) = [wallet_a, wallet_c]"
    using world0_setup by (simp add: net_evm_alerts)
  from g have "displayed (fst (network_body world0 0 net_evm)) =
      map Address (compared (fst (network_body world0 0 net_evm)))"
    by blast
  then have d: "displayed (fst (network_body world0 0 net_evm)) = [''0xaaa'', ''0xccc'']"
    using c by (simp add: wallet_a_def wallet_c_def)
  have l: "length (Wallets net_evm) = 3" by (simp add: net_evm_def)
  show ?thesis using world0_setup world0_fetches c f d l by simp
qed

text \<open>
  The alert-enabled wallets are not compared in every run: when the node does not
  answer, the set-up succeeds, both alert-enabled wallets are fetched, and none is
  compared or shown.
\<close>

theorem fetch_failure_counterexample:
  "setup_ok world_down 0 net_evm
   \<and> filter Alert (Wallets net_evm) = [wallet_a, wallet_c]
   \<and> fetched (fst (network_body world_down 0 net_evm)) = [wallet_a, wallet_c]
   \<and> compared (fst (network_body world_down 0 net_evm)) = []
   \<and> displayed (fst (network_body world_down 0 net_evm)) = []"
proof -
  have "setup_ok world_down 0 net_evm"
    by (simp add: setup_ok_def world_down_def world0_def net_evm_def threshold_one)
  then show ?thesis by (simp add: world_down_network net_evm_alerts)
qed

text \<open>
  C7. When the fetch for an alert-enabled wallet returns an error, the loop prints the
  error, does nothing else for that wallet and goes on with the next wallet. \<open>main\<close>
  ends in \<open>Fatal\<close> exactly when the configuration file cannot be read or cannot be
  decoded, and runs to completion in every other case.
\<close>

theorem fetch_error_skips_wallet:
  "(Alert w \<and> fetch W t nc w = (ls, Inl err) \<longrightarrow>
      wallets_loop W fetch nc thr t (w # ws) =
        (Fetch w # map Print ls @ Print (ErrorLine err) # fst (wallets_loop W fetch nc thr (t + 1) ws),
         snd (wallets_loop W fetch nc thr (t + 1) ws)))
   \<and> (main W = Fatal e \<longleftrightarrow>
        os_ReadFile W filePath = Inl e \<or>
        (\<exists>content. os_ReadFile W filePath = Inr content \<and> Unmarshal_ChainConfig W content = Inl e))
   \<and> ((\<exists>evs. main W = Completed evs) \<longleftrightarrow>
        (\<exists>content cfg. os_ReadFile W filePath = Inr content \<and> Unmarshal_ChainConfig W content = Inr cfg))"
  using wallets_loop_error [of w fetch W t nc ls err thr ws] main_Fatal_iff [of W e]
    main_Completed_iff [of W]
  by blast

text \<open>
  An instance: the node does not answer for the first wallet and answers for the
  third; the run prints the error, goes on with the third wallet and completes.
\<close>

theorem fetch_error_skips_wallet_witness:
  "Alert wallet_a
   \<and> fetch_evm world_flaky 1 net_evm wallet_a = ([], Inl (External ''timeout''))
   \<and> wallets_loop world_flaky fetch_evm net_evm
        \<lparr>fprec = 64, fmant = 9223372036854775808, fexp = - 63\<rparr> 1 [wallet_a, wallet_b, wallet_c] =
      ([Fetch wallet_a, Print (ErrorLine (External ''timeout'')),
        Fetch wallet_c, Print (Row ''0xccc'' ''float'' ''int'' ''float''), Compare wallet_c True,
        Post ''https://discord/webhook'' ''{json}''], 4)
   \<and> main world_flaky = Completed
      [Print (NetworkLine ''Ethereum''), Print (TableHeader ''ETH''), Print Rule, Dial ''https://rpc'',
       Fetch wallet_a, Print (ErrorLine (External ''timeout'')),
       Fetch wallet_c, Print (Row ''0xccc'' ''float'' ''int'' ''float''), Compare wallet_c True,
       Post ''https://discord/webhook'' ''{json}'', Print BlankLines]"
proof -
  let ?thr = "\<lparr>fprec = 64, fmant = 9223372036854775808, fexp = - 63\<rparr>"
  have a: "Alert wallet_a" by (simp add: wallet_a_def)
  have e: "(1::nat) + 1 = 2" by simp
  from fetch_error_skips_wallet [of wallet_a fetch_evm world_flaky 1 net_evm "[]" "External ''timeout''"
      ?thr "[wallet_b, wallet_c]"] a world_flaky_fetch1
  have "wallets_loop world_flaky fetch_evm net_evm ?thr 1 [wallet_a, wallet_b, wallet_c] =
    (Fetch wallet_a # map Print [] @ Print (ErrorLine (External ''timeout''))
       # fst (wallets_loop world_flaky fetch_evm net_evm ?thr (1 + 1) [wallet_b, wallet_c]),
     snd (wallets_loop world_flaky fetch_evm net_evm ?thr (1 + 1) [wallet_b, wallet_c]))"
    by blast
  then have l: "wallets_loop world_flaky fetch_evm net_evm ?thr 1 [wallet_a, wallet_b, wallet_c] =
    ([Fetch wallet_a, Print (ErrorLine (External ''timeout'')),
      Fetch wallet_c, Print (Row ''0xccc'' ''float'' ''int'' ''float''), Compare wallet_c True,
      Post ''https://discord/webhook'' ''{json}''], 4)"
    unfolding e world_flaky_rest by (simp only: fst_conv snd_conv list.map append.simps)
  have "os_ReadFile world_flaky filePath = Inr ''config''" by (simp add: world_flaky_def world0_def)
  moreover have "Unmarshal_ChainConfig world_flaky ''config'' = Inr \<lparr>Chains = [net_evm]\<rparr>"
    by (simp add: world_flaky_def world0_def)
  moreover have "networks_loop world_flaky 0 [net_evm] = network_body world_flaky 0 net_evm"
    by (simp add: case_prod_unfold)
  ultimately have m: "main world_flaky = Completed (fst (network_body world_flaky 0 net_evm))"
    by (simp add: main_def)
  show ?thesis using a world_flaky_fetch1 l m by (simp add: world_flaky_network)
qed


subsection \<open>Alerts\<close>

text \<open>
  C8. A webhook response with a status other than 200 makes \<open>sendDiscordAlert\<close>
  return the error \<open>UnexpectedStatus\<close>. The run is the same whatever the webhook
  answers: the same result and the same trace, so a failed delivery aborts nothing and
  adds no line to the output.
\<close>

theorem webhook_failure_not_logged:
  "(json_Marshal W [(''content'', message)] = Inr jsonMsg \<and>
      http_Post W t (discordWebhookURL W) jsonMsg = PostResponse code \<and> code \<noteq> 200 \<longrightarrow>
      fst (sendDiscordAlert W t message) = Some (UnexpectedStatus code))
   \<and> main (W\<lparr>http_Post := post\<rparr>) = main W"
  by (simp add: sendDiscordAlert_def main_post)

text \<open>
  An instance: the run in \<open>world0\<close>, where the webhook answers 500, is the run in
  the world where it answers 200.
\<close>

theorem webhook_failure_not_logged_witness:
  "json_Marshal world0 [(''content'', world0_message)] = Inr ''{json}''
   \<and> http_Post world0 2 (discordWebhookURL world0) ''{json}'' = PostResponse 500
   \<and> fst (sendDiscordAlert world0 2 world0_message) = Some (UnexpectedStatus 500)
   \<and> main world_200 = main world0
   \<and> main world0 = Completed world0_trace"
proof -
  have "(500::int) \<noteq> 200" by simp
  with webhook_failure_not_logged [of world0 world0_message "''{json}''" 2 500 "\<lambda>t url body. PostResponse 200"]
    world0_post
  have "fst (sendDiscordAlert world0 2 world0_message) = Some (UnexpectedStatus 500)"
    and "main world_200 = main world0"
    unfolding world_200_def by blast+
  then show ?thesis using world0_post by (simp add: world0_main world0_trace_def)
qed

text \<open>
  A failed delivery is not logged: in \<open>world0\<close> both POSTs are answered 500, and the
  run prints the header, the two rows and the blank lines, and no line for an error.
\<close>

theorem webhook_500_counterexample:
  "fst (sendDiscordAlert world0 2 world0_message) = Some (UnexpectedStatus 500)
   \<and> main world0 = Completed world0_trace
   \<and> posted world0_trace = [''{json}'', ''{json}'']
   \<and> printed world0_trace =
       [NetworkLine ''Ethereum'', TableHeader ''ETH'', Rule, Row ''0xaaa'' ''float'' ''int'' ''float'',
        Row ''0xccc'' ''float'' ''int'' ''float'', BlankLines]
   \<and> ErrorLine (UnexpectedStatus 500) \<notin> set (printed world0_trace)"
proof -
  have "fst (sendDiscordAlert world0 2 world0_message) = Some (UnexpectedStatus 500)"
    by (simp add: sendDiscordAlert_def world0_def)
  then show ?thesis by (simp add: world0_main world0_trace_def)
qed

text \<open>
  C9. When the amount of the entry found is not a base-10 integer, the failure of the
  parse is not noticed: the result is no error but a balance, the number that the digits
  in front of the amount denote, with their sign (0 when there is no digit in front).
\<close>

theorem getCosmosBalance_invalid_amount:
  assumes "http_Get W t (rpc @ ''/cosmos/bank/v1beta1/balances/'' @ address) = GetBody (Inr body)"
    and "Unmarshal_CosmosBalance W body = Inr cb"
    and "ascii denom" and "\<forall>c \<in> set (Balances cb). ascii (Denom c)"
    and "find (\<lambda>c. same_ignoring_case (Denom c) denom) (Balances cb) = Some c"
    and "\<not> signed_digits 10 (Amount c)"
  shows "\<not> fst (Int_SetString (Amount c) 10)
       \<and> snd (getCosmosBalance W t rpc address denom) = Inr (prefix_value 10 (Amount c))"
proof -
  have g: "snd (getCosmosBalance W t rpc address denom) = find_balance (Balances cb) denom"
    using assms(1,2) by (simp add: getCosmosBalance_body)
  show ?thesis
    unfolding g find_balance_eq using assms(5,6) by (simp add: Int_SetString_ok)
qed

text \<open>
  An instance: the amount \<open>12abc\<close>.
\<close>

theorem getCosmosBalance_invalid_amount_witness:
  "\<not> signed_digits 10 ''12abc''
   \<and> \<not> fst (Int_SetString ''12abc'' 10)
   \<and> snd (getCosmosBalance world_12abc 0 ''https://lcd'' ''cosmos1'' ''UATOM'') = Inr 12"
proof -
  have g: "http_Get world_12abc 0 (''https://lcd'' @ ''/cosmos/bank/v1beta1/balances/'' @ ''cosmos1'') = GetBody (Inr uatom_body)"
    by (simp add: world_12abc_def world0_def)
  have u: "Unmarshal_CosmosBalance world_12abc uatom_body = Inr \<lparr>Balances = [\<lparr>Denom = ''uatom'', Amount = ''12abc''\<rparr>]\<rparr>"
    by (simp add: world_12abc_def world0_def)
  have a: "\<forall>c \<in> set (Balances \<lparr>Balances = [\<lparr>Denom = ''uatom'', Amount = ''12abc''\<rparr>]\<rparr>). ascii (Denom c)"
    by (simp add: ascii_UATOM)
  have f: "find (\<lambda>c. same_ignoring_case (Denom c) ''UATOM'') (Balances \<lparr>Balances = [\<lparr>Denom = ''uatom'', Amount = ''12abc''\<rparr>]\<rparr>) =
      Some \<lparr>Denom = ''uatom'', Amount = ''12abc''\<rparr>"
    by (simp add: same_case_simps)
  have b: "\<not> signed_digits 10 (Amount \<lparr>Denom = ''uatom'', Amount = ''12abc''\<rparr>)"
    by (simp add: bad_amount)
  from getCosmosBalance_invalid_amount [OF g u ascii_UATOM(1) a f b]
  show ?thesis by (simp add: bad_amount)
qed

text \<open>
  The balance is not 0 for every amount that is no integer: it is 12 for \<open>12abc\<close>.
\<close>

theorem invalid_amount_counterexample:
  "\<not> signed_digits 10 ''12abc''
   \<and> snd (getCosmosBalance world_12abc 0 ''https://lcd'' ''cosmos1'' ''uatom'') = Inr 12
   \<and> snd (getCosmosBalance world_12abc 0 ''https://lcd'' ''cosmos1'' ''uatom'') \<noteq> Inr 0"
proof -
  have "find_balance [\<lparr>Denom = ''uatom'', Amount = ''12abc''\<rparr>] ''uatom'' = Inr 12"
    by (simp add: find_balance_eq same_case_simps bad_amount)
  then have "snd (getCosmosBalance world_12abc 0 ''https://lcd'' ''cosmos1'' ''uatom'') = Inr 12"
    by (simp add: getCosmosBalance_def world_12abc_def world0_def)
  then show ?thesis by (simp add: bad_amount)
qed

text \<open>
  C10. When the POST returns an error and no response, \<open>sendTelegramAlert\<close> panics
  on the status code of the response it does not have; it does not return the error.
\<close>

theorem sendTelegramAlert_nil_response:
  assumes "json_Marshal W [(''chat_id'', []), (''text'', message)] = Inr jsonMsg"
    and "http_Post W t (''https://api.telegram.org/bot'' @ telegramBotToken W @ ''/sendMessage'') jsonMsg
           = PostError err None"
  shows "sendTelegramAlert W t message = Panics
       \<and> sendTelegramAlert W t message \<noteq> Returns (Some err)"
  using assms by (simp add: sendTelegramAlert_def)

text \<open>
  An instance: the connection is refused.
\<close>

theorem sendTelegramAlert_nil_response_witness:
  "json_Marshal world_refused [(''chat_id'', []), (''text'', ''low balance'')] = Inr ''{json}''
   \<and> http_Post world_refused 0 (''https://api.telegram.org/bot'' @ telegramBotToken world_refused @ ''/sendMessage'') ''{json}''
        = PostError (External ''connection refused'') None
   \<and> sendTelegramAlert world_refused 0 ''low balance'' = Panics"
proof -
  have m: "json_Marshal world_refused [(''chat_id'', []), (''text'', ''low balance'')] = Inr ''{json}''"
    by (simp add: world_refused_def world0_def)
  have p: "http_Post world_refused 0 (''https://api.telegram.org/bot'' @ telegramBotToken world_refused @ ''/sendMessage'') ''{json}''
        = PostError (External ''connection refused'') None"
    by (simp add: world_refused_def)
  from sendTelegramAlert_nil_response [OF m p] m p show ?thesis by simp
qed

end
